theory Spec2Isabelle
  imports Complex_Main "HOL-Library.Char_ord" "HOL-Library.List_Lexorder"
begin

section \<open>Python values shared by the scripts\<close>

text \<open>
  The scripts are Python add-ons of a 3D host application. The coordinates the host stores
  and its vectors are idealised as real numbers and tuples of reals, without rounding. Every
  raise of the source is a value of \<open>error\<close>.
\<close>

datatype error = RuntimeError | IndexError | KeyError | AttributeError | ValueError

section \<open>UnAtlasSelection.py\<close>

subsection \<open>get_division_size\<close>

text \<open>
  The argument of \<open>get_division_size\<close> is a Python float: a finite number, an infinity
  or NaN. Every comparison with NaN is false.
\<close>

datatype pyfloat = Finite real | PosInf | NegInf | NaN

text \<open>\<open>x <= 0\<close> and \<open>x > y\<close> for a float \<open>x\<close> and a finite \<open>y\<close>.\<close>

fun float_le_zero :: "pyfloat \<Rightarrow> bool" where
  "float_le_zero (Finite x) = (x \<le> 0)"
| "float_le_zero PosInf = False"
| "float_le_zero NegInf = True"
| "float_le_zero NaN = False"

fun float_gt :: "pyfloat \<Rightarrow> real \<Rightarrow> bool" where
  "float_gt (Finite x) y = (x > y)"
| "float_gt PosInf y = True"
| "float_gt NegInf y = False"
| "float_gt NaN y = False"

text \<open>
  The body of \<open>while(True)\<close> in \<open>get_division_size\<close>: \<open>n\<close> is an unbounded
  Python integer that only grows, and the loop has no other exit than the \<open>return\<close>.
  \<open>None\<close> stands for a loop that never returns.
\<close>

partial_function (option) get_division_size_loop :: "pyfloat \<Rightarrow> nat \<Rightarrow> int option" where
  "get_division_size_loop normalized_length n =
     (if float_gt normalized_length (1 / (2 ^ n)) then Some (int n - 1)
      else get_division_size_loop normalized_length (n + 1))"

definition get_division_size :: "pyfloat \<Rightarrow> (error + int) option" where
  "get_division_size normalized_length =
     (if float_le_zero normalized_length then Some (Inl RuntimeError)
      else map_option Inr (get_division_size_loop normalized_length 0))"

subsection \<open>The selection transform\<close>

text \<open>
  The host's per-loop UV datum (\<open>MeshUVLoop\<close> / \<open>BMLoopUV\<close>) with the three
  attributes the scripts read and write.
\<close>

record loopuv =
  uv :: "real \<times> real"
  pin_uv :: bool
  select :: bool

text \<open>Python's \<open>max\<close> and \<open>min\<close> of a non-empty list (the script only calls them there).\<close>

fun py_max :: "real list \<Rightarrow> real" where
  "py_max [] = 0"
| "py_max (x # xs) = fold max xs x"

fun py_min :: "real list \<Rightarrow> real" where
  "py_min [] = 0"
| "py_min (x # xs) = fold min xs x"

text \<open>Python's \<open>int(x)\<close> of a float truncates toward zero.\<close>

definition py_int :: "real \<Rightarrow> int" where
  "py_int x = (if x \<ge> 0 then \<lfloor>x\<rfloor> else \<lceil>x\<rceil>)"

text \<open>\<open>2**k\<close> for a Python integer \<open>k\<close>: a float when \<open>k\<close> is negative.\<close>

definition py_pow2 :: "int \<Rightarrow> real" where
  "py_pow2 k = (if k \<ge> 0 then 2 ^ nat k else 1 / 2 ^ nat (- k))"

definition find_closest_division :: "real \<Rightarrow> real \<Rightarrow> int" where
  "find_closest_division divisions normalized_value = py_int (normalized_value * divisions)"

text \<open>
  The final loop \<open>for uv in selected_uvs: uv.uv = (uv.uv - vec_to_subtract) * vec_to_scale\<close>.
  \<open>selected_uvs\<close> holds references to the loops' data, so the assignment changes exactly
  the data whose \<open>select\<close> flag was set when the list was built; the flag is not written.
\<close>

definition transform_uv :: "real \<times> real \<Rightarrow> real \<times> real \<Rightarrow> loopuv \<Rightarrow> loopuv" where
  "transform_uv vec_to_subtract vec_to_scale l =
     (if select l
      then l\<lparr>uv := ((fst (uv l) - fst vec_to_subtract) * fst vec_to_scale,
                     (snd (uv l) - snd vec_to_subtract) * snd vec_to_scale)\<rparr>
      else l)"

text \<open>
  The script body. The argument is the active UV layer of the edit mesh, \<open>None\<close> when
  the mesh has none, otherwise the data of the loops of each face. The outer \<open>option\<close>
  of the result is \<open>None\<close> when \<open>get_division_size\<close> does not return. The
  coordinates are finite, and so are the lengths of the bounding box. The \<open>print\<close> calls
  and the viewport update are not modelled.
\<close>

definition unatlas :: "bool \<Rightarrow> loopuv list list option \<Rightarrow> (error + loopuv list list option) option" where
  "unatlas allow_non_square uv_layer =
     (case uv_layer of
        None \<Rightarrow> Some (Inr None)
      | Some faces \<Rightarrow>
          let selected_uvs = filter select (concat faces);
              selected_u = map (\<lambda>l. fst (uv l)) selected_uvs;
              selected_v = map (\<lambda>l. snd (uv l)) selected_uvs
          in if selected_uvs = [] then Some (Inr (Some faces))
             else
               let max_u = py_max selected_u; min_u = py_min selected_u;
                   max_v = py_max selected_v; min_v = py_min selected_v;
                   x_bb_length = max_u - min_u;
                   y_bb_length = max_v - min_v
               in (case get_division_size (Finite x_bb_length) of
                     None \<Rightarrow> None
                   | Some (Inl e) \<Rightarrow> Some (Inl e)
                   | Some (Inr x_size) \<Rightarrow>
                       (case get_division_size (Finite y_bb_length) of
                          None \<Rightarrow> None
                        | Some (Inl e) \<Rightarrow> Some (Inl e)
                        | Some (Inr y_size) \<Rightarrow>
                            let x_division_size = (if \<not> allow_non_square then min x_size y_size else x_size);
                                y_division_size = (if \<not> allow_non_square then min x_size y_size else y_size);
                                x_divisions = py_pow2 x_division_size;
                                y_divisions = py_pow2 y_division_size;
                                min_texture_u = real_of_int (find_closest_division x_divisions min_u) / x_divisions;
                                min_texture_v = real_of_int (find_closest_division y_divisions min_v) / y_divisions;
                                vec_to_subtract = (min_texture_u, min_texture_v);
                                vec_to_scale = (x_divisions, y_divisions)
                            in Some (Inr (Some (map (map (transform_uv vec_to_subtract vec_to_scale)) faces))))))"

section \<open>BoneCycleHierarchy.py\<close>

text \<open>
  A bone of the collection the operator works on (edit bones in armature edit mode, bones
  in pose mode). Bones are identified by their position in the collection; \<open>parent\<close> is
  the position of the parent bone. The field names carry the prefix \<open>bone_\<close>, those of the
  operator's properties the prefix \<open>cycle_\<close>.
\<close>

record bone =
  bone_name :: string
  bone_parent :: "nat option"
  bone_hide :: bool
  bone_hide_select :: bool
  bone_select :: bool
  bone_select_head :: bool
  bone_select_tail :: bool

record armature_context =
  mode :: string
  bones :: "bone list"
  active_bone :: "nat option"
  active_pose_bone :: "nat option"

datatype status = FINISHED | CANCELLED

record cycle_props =
  cycle_direction :: string
  cycle_extend :: bool
  cycle_order :: string

text \<open>\<open>parent.children\<close>: the bones whose parent is \<open>p\<close>, in the order of the collection.\<close>

definition children :: "bone list \<Rightarrow> nat \<Rightarrow> nat list" where
  "children bs p = filter (\<lambda>i. bone_parent (bs ! i) = Some p) [0..<length bs]"

text \<open>
  Python's \<open>sorted(xs, key=f, reverse=r)\<close>: a stable sort; with \<open>reverse\<close> the elements
  with equal keys keep their original order too.
\<close>

definition py_sorted :: "('a \<Rightarrow> 'k::linorder) \<Rightarrow> bool \<Rightarrow> 'a list \<Rightarrow> 'a list" where
  "py_sorted f reverse xs = (if reverse then rev (sort_key f (rev xs)) else sort_key f xs)"

text \<open>\<open>xs.index(x)\<close>: the first position of \<open>x\<close>, \<open>ValueError\<close> when there is none.\<close>

fun index_of :: "'a list \<Rightarrow> 'a \<Rightarrow> nat option" where
  "index_of [] x = None"
| "index_of (y # ys) x = (if y = x then Some 0 else map_option Suc (index_of ys x))"

definition set_select :: "bool \<Rightarrow> bone \<Rightarrow> bone" where
  "set_select b x = x\<lparr>bone_select := b, bone_select_head := b, bone_select_tail := b\<rparr>"

definition visible :: "bone list \<Rightarrow> nat \<Rightarrow> bool" where
  "visible bs b = (\<not> bone_hide (bs ! b) \<and> \<not> bone_hide_select (bs ! b))"

definition ordered_siblings :: "cycle_props \<Rightarrow> bone list \<Rightarrow> nat \<Rightarrow> nat list" where
  "ordered_siblings props bs parent =
     (let siblings = children bs parent;
          reverse_order = (cycle_direction props = ''BACKWARDS'')
      in if cycle_order props = ''ALPHABETICAL''
         then py_sorted (\<lambda>b. bone_name (bs ! b)) reverse_order siblings
         else if reverse_order then rev siblings else siblings)"

text \<open>
  \<open>execute\<close>. Reading \<open>.parent\<close> or \<open>.children\<close> of \<open>None\<close> raises \<open>AttributeError\<close>.
  \<open>set_active\<close> writes the active bone of the edit-bone collection in armature edit mode
  and of the bone collection otherwise.
\<close>

definition cycle_execute :: "cycle_props \<Rightarrow> armature_context \<Rightarrow> error + (status \<times> armature_context)" where
  "cycle_execute props context =
     (case (if mode context = ''EDIT_ARMATURE'' then active_bone context else active_pose_bone context) of
        None \<Rightarrow> Inl AttributeError
      | Some active \<Rightarrow>
          (case bone_parent (bones context ! active) of
             None \<Rightarrow> Inl AttributeError
           | Some parent \<Rightarrow>
               let siblings = ordered_siblings props (bones context) parent
               in (case index_of siblings active of
                     None \<Rightarrow> Inl ValueError
                   | Some active_index \<Rightarrow>
                       let siblings_chain = drop (active_index + 1) siblings @ take active_index siblings;
                           siblings_chain = filter (visible (bones context)) siblings_chain
                       in (case siblings_chain of
                             [] \<Rightarrow> Inr (CANCELLED, context)
                           | next_bone # _ \<Rightarrow>
                               let bs1 = (if \<not> cycle_extend props
                                          then (bones context)[active := set_select False (bones context ! active)]
                                          else bones context);
                                   bs2 = bs1[next_bone := set_select True (bs1 ! next_bone)];
                                   context' = context\<lparr>bones := bs2\<rparr>
                               in Inr (FINISHED,
                                       if mode context = ''EDIT_ARMATURE''
                                       then context'\<lparr>active_bone := Some next_bone\<rparr>
                                       else context'\<lparr>active_pose_bone := Some next_bone\<rparr>)))))"

section \<open>SelectAllByTraitNumberOfVertexGroups.py\<close>

text \<open>
  A vertex of the edit mesh with its entry of the deform layer: the dictionary from
  vertex-group index to weight, as an association list with distinct keys. The fields
  carry the prefix \<open>dv_\<close>; the operator's properties the prefix \<open>vg_\<close>.
\<close>

record bmvert_deform =
  dv_select :: bool
  dv_hide :: bool
  dv_deform :: "(nat \<times> real) list"

record pose_bone =
  pbone_name :: string
  pbone_use_deform :: bool

record modifier =
  mod_type :: string
  mod_object :: "pose_bone list option"
  mod_show_viewport :: bool

record vg_object =
  vertex_groups :: "string list"
  modifiers :: "modifier list"
  deform_layer :: bool
  dverts :: "bmvert_deform list"


record vg_context =
  vg_mode :: string
  vg_objects :: "vg_object list"
  mesh_select_mode_vertex :: bool








text \<open>\<open>poll\<close> with the message it sets (\<open>None\<close> when it sets none).\<close>

definition vg_poll :: "vg_context \<Rightarrow> bool \<times> string option" where
  "vg_poll context =
     (let objects = vg_objects context
      in if vg_mode context = ''EDIT_MESH'' \<and> objects \<noteq> []
         then if mesh_select_mode_vertex context
              then if list_ex (\<lambda>obj. vertex_groups obj \<noteq> []) objects then (True, None)
                   else (False, Some (''No weights/vertex groups on '' @
                                      (if length objects > 1 then ''objects'' else ''object'')))
              else (False, Some ''Must be in vertex selection mode'')
         else (False, Some ''Must be in mesh edit mode''))"

section \<open>ExtraShapeKeyOperations.py\<close>

subsection \<open>Vectors\<close>

type_synonym vec = "real \<times> real \<times> real"

fun vadd :: "vec \<Rightarrow> vec \<Rightarrow> vec" where
  "vadd (x1, y1, z1) (x2, y2, z2) = (x1 + x2, y1 + y2, z1 + z2)"

fun vsub :: "vec \<Rightarrow> vec \<Rightarrow> vec" where
  "vsub (x1, y1, z1) (x2, y2, z2) = (x1 - x2, y1 - y2, z1 - z2)"

fun vdiv :: "vec \<Rightarrow> real \<Rightarrow> vec" where
  "vdiv (x, y, z) d = (x / d, y / d, z / d)"


text \<open>\<open>a.lerp(b, factor)\<close>: linear interpolation from \<open>a\<close> to \<open>b\<close>.\<close>

fun lerp :: "vec \<Rightarrow> vec \<Rightarrow> real \<Rightarrow> vec" where
  "lerp (x1, y1, z1) (x2, y2, z2) factor =
     ((1 - factor) * x1 + factor * x2, (1 - factor) * y1 + factor * y2, (1 - factor) * z1 + factor * z2)"

subsection \<open>Meshes with shape keys\<close>

text \<open>
  A key block refers to its relative key; key blocks are told apart by their names, so the
  reference is kept as the name of the relative key, and so is \<open>reference_key\<close>. A vertex
  of the edit mesh holds one coordinate for each shape layer, in the order of the key blocks
  (\<open>bv[layer]\<close> is \<open>shape bv ! layer\<close>). A vector read into a variable is taken as
  the value at that moment; should the host hand out a view of the mesh data instead, the two
  readings differ only where a layer is written between the read and the use, that is when
  the active layer is also the layer written to. The vertex flags carry the prefix
  \<open>vert_\<close>; the name of a key block is \<open>block_name\<close>.
\<close>

record shape_key =
  block_name :: string
  relative_key :: string

record key =
  use_relative :: bool
  reference_key :: string
  key_blocks :: "shape_key list"

record bmvert =
  co :: vec
  vert_select :: bool
  vert_hide :: bool
  shape :: "vec list"

record mesh_object =
  shape_keys :: "key option"
  active_shape_key_index :: nat
  verts :: "bmvert list"

record mesh_context =
  mesh_mode :: string
  objects_in_mode_unique_data :: "mesh_object list"

text \<open>\<open>me.total_vert_sel\<close>, the host's count of the selected vertices of the edit mesh.\<close>

definition total_vert_sel :: "mesh_object \<Rightarrow> nat" where
  "total_vert_sel obj = length (filter vert_select (verts obj))"

definition shape_layer_names :: "mesh_object \<Rightarrow> string list" where
  "shape_layer_names obj = (case shape_keys obj of None \<Rightarrow> [] | Some k \<Rightarrow> map block_name (key_blocks k))"

text \<open>\<open>obj.active_shape_key\<close>: \<open>None\<close> without shape keys.\<close>

definition active_shape_key :: "mesh_object \<Rightarrow> shape_key option" where
  "active_shape_key obj =
     (case shape_keys obj of
        None \<Rightarrow> None
      | Some k \<Rightarrow> if active_shape_key_index obj < length (key_blocks k)
                  then Some (key_blocks k ! active_shape_key_index obj) else None)"

text \<open>\<open>bm.verts.layers.shape[i]\<close> and \<open>bm.verts.layers.shape[name]\<close>.\<close>

definition shape_layer_by_index :: "mesh_object \<Rightarrow> nat \<Rightarrow> error + nat" where
  "shape_layer_by_index obj i = (if i < length (shape_layer_names obj) then Inr i else Inl IndexError)"

definition shape_layer_by_name :: "mesh_object \<Rightarrow> string \<Rightarrow> error + nat" where
  "shape_layer_by_name obj name =
     (case index_of (shape_layer_names obj) name of None \<Rightarrow> Inl KeyError | Some i \<Rightarrow> Inr i)"

text \<open>A \<open>for\<close> loop over a list whose body may raise: the first error ends it.\<close>

fun for_each :: "('a \<Rightarrow> error + 'b) \<Rightarrow> 'a list \<Rightarrow> error + 'b list" where
  "for_each f [] = Inr []"
| "for_each f (x # xs) =
     (case f x of
        Inl e \<Rightarrow> Inl e
      | Inr y \<Rightarrow> (case for_each f xs of Inl e \<Rightarrow> Inl e | Inr ys \<Rightarrow> Inr (y # ys)))"

subsection \<open>OperatorBase and ClearPendingChanges\<close>

definition poll_mode :: "mesh_context \<Rightarrow> bool \<times> string option" where
  "poll_mode context =
     (if mesh_mode context \<noteq> ''EDIT_MESH'' then (False, Some ''Must be in edit mode'') else (True, None))"

definition clear_poll :: "mesh_context \<Rightarrow> bool \<times> string option" where
  "clear_poll context =
     (if \<not> fst (poll_mode context) then (False, snd (poll_mode context))
      else if \<not> list_all (\<lambda>obj. shape_keys obj \<noteq> None) (objects_in_mode_unique_data context)
      then (False, Some ''All meshes in edit mode must have shape keys'')
      else (True, None))"

definition clear_object :: "mesh_object \<Rightarrow> error + mesh_object" where
  "clear_object obj =
     (if total_vert_sel obj = 0 then Inr obj
      else (case shape_layer_by_index obj (active_shape_key_index obj) of
              Inl e \<Rightarrow> Inl e
            | Inr active_shape_layer \<Rightarrow>
                Inr (obj\<lparr>verts := map (\<lambda>bv. if vert_select bv \<and> \<not> vert_hide bv
                                             then bv\<lparr>co := shape bv ! active_shape_layer\<rparr> else bv)
                                       (verts obj)\<rparr>)))"

definition clear_execute :: "mesh_context \<Rightarrow> error + (status \<times> mesh_context)" where
  "clear_execute context =
     (case for_each clear_object (objects_in_mode_unique_data context) of
        Inl e \<Rightarrow> Inl e
      | Inr objects \<Rightarrow> Inr (FINISHED, context\<lparr>objects_in_mode_unique_data := objects\<rparr>))"

subsection \<open>TransferPendingChanges\<close>








subsection \<open>AverageShapeKeyMovement\<close>

text \<open>
  The static method used by \<open>poll\<close>. An active shape key implies that the mesh has shape
  keys, so the inner \<open>None\<close> is not reached.
\<close>

definition object_has_relative_shape_keys_and_active_shape_is_not_basis_like :: "mesh_object \<Rightarrow> bool" where
  "object_has_relative_shape_keys_and_active_shape_is_not_basis_like mesh_obj =
     (case active_shape_key mesh_obj of
        None \<Rightarrow> False
      | Some active_shape \<Rightarrow>
          (case shape_keys mesh_obj of
             None \<Rightarrow> False
           | Some k \<Rightarrow> use_relative k \<and> relative_key active_shape \<noteq> block_name active_shape \<and>
                       block_name active_shape \<noteq> reference_key k))"

definition average_poll :: "mesh_context \<Rightarrow> bool \<times> string option" where
  "average_poll context =
     (if fst (poll_mode context)
      then if list_ex object_has_relative_shape_keys_and_active_shape_is_not_basis_like
                (objects_in_mode_unique_data context)
           then (True, None)
           else (False, Some (''At least one mesh must have an active relative shape key that isn'' @ [CHR 0x27] @
                              ''t the reference key and isn'' @ [CHR 0x27] @ ''t relative to itself''))
      else (False, snd (poll_mode context)))"

text \<open>\<open>bm.verts.layers.shape[active_shape.relative_key.name]\<close>\<close>

definition relative_shape_layer :: "mesh_object \<Rightarrow> error + nat" where
  "relative_shape_layer obj =
     (case active_shape_key obj of
        None \<Rightarrow> Inl AttributeError
      | Some active_shape \<Rightarrow> shape_layer_by_name obj (relative_key active_shape))"

text \<open>
  An element of \<open>all_selected_bmverts\<close>: the vertex, as the position of its object and its
  own position there, with \<open>relative_co\<close> and \<open>movement\<close>.
\<close>

type_synonym selected_bmvert = "(nat \<times> nat) \<times> vec \<times> vec"

definition average_collect :: "nat \<times> mesh_object \<Rightarrow> error + selected_bmvert list" where
  "average_collect io =
     (let i = fst io; obj = snd io
      in case active_shape_key obj of
           None \<Rightarrow> Inr []
         | Some active_shape \<Rightarrow>
             if relative_key active_shape = block_name active_shape then Inr []
             else (case shape_keys obj of
                     None \<Rightarrow> Inl AttributeError
                   | Some k \<Rightarrow>
                       if \<not> use_relative k \<or> reference_key k = block_name active_shape then Inr []
                       else if total_vert_sel obj = 0 then Inr []
                       else (case relative_shape_layer obj of
                               Inl e \<Rightarrow> Inl e
                             | Inr relative_layer \<Rightarrow>
                                 Inr (map (\<lambda>(j, bv). ((i, j), shape bv ! relative_layer,
                                                       vsub (co bv) (shape bv ! relative_layer)))
                                        (filter (\<lambda>(j, bv). vert_select bv \<and> \<not> vert_hide bv)
                                           (zip [0..<length (verts obj)] (verts obj)))))))"

definition set_co :: "mesh_object list \<Rightarrow> nat \<times> nat \<Rightarrow> vec \<Rightarrow> mesh_object list" where
  "set_co objects ij v =
     (let obj = objects ! fst ij
      in objects[fst ij := obj\<lparr>verts := (verts obj)[snd ij := (verts obj ! snd ij)\<lparr>co := v\<rparr>]\<rparr>])"

definition average_execute :: "real \<Rightarrow> mesh_context \<Rightarrow> error + (status \<times> mesh_context)" where
  "average_execute mix context =
     (if mix = 0 then Inr (FINISHED, context)
      else
        let objects = objects_in_mode_unique_data context
        in (case for_each average_collect (zip [0..<length objects] objects) of
              Inl e \<Rightarrow> Inl e
            | Inr collected \<Rightarrow>
                let all_selected_bmverts = concat collected;
                    sum_movement = fold (\<lambda>(_, _, movement) s. vadd s movement) all_selected_bmverts (0, 0, 0)
                in if all_selected_bmverts \<noteq> []
                   then
                     let average_movement = vdiv sum_movement (real (length all_selected_bmverts));
                         objects' =
                           (if mix = 1
                            then fold (\<lambda>(bv, relative_co, _) objs. set_co objs bv (vadd relative_co average_movement))
                                   all_selected_bmverts objects
                            else fold (\<lambda>(bv, relative_co, movement) objs.
                                         set_co objs bv (vadd relative_co (lerp movement average_movement mix)))
                                   all_selected_bmverts objects)
                     in Inr (FINISHED, context\<lparr>objects_in_mode_unique_data := objects'\<rparr>)
                   else Inr (FINISHED, context)))"

section \<open>transferPendingEditChanges.py\<close>



section \<open>moveActiveUVLayer.py\<close>

text \<open>
  A UV layer of a mesh with its name and its data, one datum for each loop of the mesh, and
  the mesh with the parts the UV scripts use: its name, its UV layers, the index of the
  active layer, the faces of the edit mesh (each with its selection flag and the indices of
  its loops) and the number of loops.
\<close>

record uv_layer =
  layer_name :: string
  layer_data :: "loopuv list"

record bmface =
  face_select :: bool
  face_loops :: "nat list"

record uv_mesh =
  mesh_name :: string
  uv_layers :: "uv_layer list"
  active_index :: int
  faces :: "bmface list"
  loops :: nat

text \<open>
  Assigning the name of a UV layer. As the comment in \<open>swap_uv_layers\<close> says, two layers
  of a mesh cannot have the same name: when another layer already has the new name, the
  host puts \<open>.001\<close> (or the next free number) on its end.
\<close>

definition name_suffix :: "nat \<Rightarrow> string" where
  "name_suffix k =
     ''.'' @ [''0123456789'' ! (k div 100 mod 10), ''0123456789'' ! (k div 10 mod 10), ''0123456789'' ! (k mod 10)]"

definition unique_name :: "string list \<Rightarrow> string \<Rightarrow> string" where
  "unique_name others name =
     (if name \<notin> set others then name
      else (case find (\<lambda>candidate. candidate \<notin> set others)
                   (map (\<lambda>k. name @ name_suffix k) [1..<length others + 2]) of
              Some candidate \<Rightarrow> candidate
            | None \<Rightarrow> name))"

definition set_layer_name :: "uv_layer list \<Rightarrow> nat \<Rightarrow> string \<Rightarrow> uv_layer list" where
  "set_layer_name ls i name =
     ls[i := (ls ! i)\<lparr>layer_name := unique_name (map layer_name (take i ls @ drop (Suc i) ls)) name\<rparr>]"

text \<open>Python's indexing of a collection of \<open>n\<close> elements: a negative index counts from the end.\<close>

definition py_index :: "nat \<Rightarrow> int \<Rightarrow> nat option" where
  "py_index n i =
     (if 0 \<le> i \<and> i < int n then Some (nat i)
      else if - int n \<le> i \<and> i < 0 then Some (nat (int n + i))
      else None)"

definition set_datum :: "uv_layer list \<Rightarrow> nat \<Rightarrow> nat \<Rightarrow> loopuv \<Rightarrow> uv_layer list" where
  "set_datum ls l i d = ls[l := (ls ! l)\<lparr>layer_data := (layer_data (ls ! l))[i := d]\<rparr>]"

text \<open>The body of the loop over \<open>range(len(layer1.data))\<close>.\<close>

definition swap_datum :: "uv_layer list \<Rightarrow> nat \<Rightarrow> nat \<Rightarrow> nat \<Rightarrow> uv_layer list" where
  "swap_datum ls l1 l2 i =
     (let layer1_uv = uv (layer_data (ls ! l1) ! i);
          layer1_pin_uv = pin_uv (layer_data (ls ! l1) ! i);
          layer1_select = select (layer_data (ls ! l1) ! i);
          ls1 = set_datum ls l1 i ((layer_data (ls ! l1) ! i)
                  \<lparr>uv := uv (layer_data (ls ! l2) ! i),
                   pin_uv := pin_uv (layer_data (ls ! l2) ! i),
                   select := select (layer_data (ls ! l2) ! i)\<rparr>)
      in set_datum ls1 l2 i ((layer_data (ls1 ! l2) ! i)
           \<lparr>uv := layer1_uv, pin_uv := layer1_pin_uv, select := layer1_select\<rparr>))"

fun swap_data :: "uv_layer list \<Rightarrow> nat \<Rightarrow> nat \<Rightarrow> nat list \<Rightarrow> error + uv_layer list" where
  "swap_data ls l1 l2 [] = Inr ls"
| "swap_data ls l1 l2 (i # rest) =
     (if i \<ge> length (layer_data (ls ! l2)) then Inl IndexError
      else swap_data (swap_datum ls l1 l2 i) l1 l2 rest)"

text \<open>The changes of the object's mode around the swap are not modelled.\<close>

definition swap_uv_layers :: "uv_layer list \<Rightarrow> int \<Rightarrow> int \<Rightarrow> error + uv_layer list" where
  "swap_uv_layers ls index1 index2 =
     (case py_index (length ls) index1 of
        None \<Rightarrow> Inl IndexError
      | Some l1 \<Rightarrow>
          (case py_index (length ls) index2 of
             None \<Rightarrow> Inl IndexError
           | Some l2 \<Rightarrow>
               let layer1_name = layer_name (ls ! l1);
                   layer2_name = layer_name (ls ! l2);
                   ls1 = set_layer_name ls l1 ''temp'';
                   ls2 = set_layer_name ls1 l2 layer1_name;
                   ls3 = set_layer_name ls2 l1 layer2_name
               in swap_data ls3 l1 l2 [0..<length (layer_data (ls3 ! l1))]))"

definition move_active_uv_layer_up :: "uv_mesh \<Rightarrow> error + uv_mesh" where
  "move_active_uv_layer_up me =
     (let index = active_index me
      in if index > 0
         then (case swap_uv_layers (uv_layers me) (index - 1) index of
                 Inl e \<Rightarrow> Inl e
               | Inr ls \<Rightarrow> Inr (me\<lparr>uv_layers := ls, active_index := index - 1\<rparr>))
         else Inr me)"

definition move_active_uv_layer_down :: "uv_mesh \<Rightarrow> error + uv_mesh" where
  "move_active_uv_layer_down me =
     (let index = active_index me
      in if index < int (length (uv_layers me)) - 1
         then (case swap_uv_layers (uv_layers me) index (index + 1) of
                 Inl e \<Rightarrow> Inl e
               | Inr ls \<Rightarrow> Inr (me\<lparr>uv_layers := ls, active_index := index + 1\<rparr>))
         else Inr me)"

section \<open>CopyUVsToOtherUVMap.py\<close>















section \<open>Properties\<close>

subsection \<open>get_division_size\<close>

lemma get_division_size_loop_steps:
  "float_gt normalized_length (1 / (2 ^ (n + k))) \<Longrightarrow>
   (\<And>m. n \<le> m \<Longrightarrow> m < n + k \<Longrightarrow> \<not> float_gt normalized_length (1 / (2 ^ m))) \<Longrightarrow>
   get_division_size_loop normalized_length n = Some (int (n + k) - 1)"
proof (induction k arbitrary: n)
  case 0
  then show ?case by (subst get_division_size_loop.simps) simp
next
  case (Suc k)
  have no: "\<not> float_gt normalized_length (1 / (2 ^ n))" using Suc.prems(2) [of n] by simp
  have "get_division_size_loop normalized_length (n + 1) = Some (int (n + 1 + k) - 1)"
  proof (rule Suc.IH)
    show "float_gt normalized_length (1 / 2 ^ (n + 1 + k))" using Suc.prems(1) by simp
  next
    fix m assume "n + 1 \<le> m" "m < n + 1 + k"
    then show "\<not> float_gt normalized_length (1 / 2 ^ m)" using Suc.prems(2) [of m] by simp
  qed
  then show ?case using no by (subst get_division_size_loop.simps) simp
qed

lemma exists_division:
  assumes "0 < (x::real)"
  shows "\<exists>n. x > 1 / (2 ^ n)"
proof -
  obtain n where "(1 / 2) ^ n < x"
    using real_arch_pow_inv [of x "1 / 2"] assms by auto
  then show ?thesis by (auto simp: power_one_over)
qed

text \<open>
  For a finite length \<open>> 0\<close> the loop ends and the function returns \<open>n - 1\<close> where
  \<open>n \<ge> 0\<close> is the smallest integer with \<open>normalized_length > 1/2^n\<close>.
\<close>

lemma get_division_size_least:
  assumes pos: "normalized_length > 0"
  shows "\<exists>n. get_division_size (Finite normalized_length) = Some (Inr (int n - 1)) \<and>
           normalized_length > 1 / (2 ^ n) \<and>
           (\<forall>m < n. \<not> normalized_length > 1 / (2 ^ m))"
proof -
  define n where "n = (LEAST n. normalized_length > 1 / (2 ^ n))"
  have ex: "\<exists>n. normalized_length > 1 / (2 ^ n)" using pos by (rule exists_division)
  have a: "normalized_length > 1 / (2 ^ n)"
    unfolding n_def using ex by (rule LeastI_ex)
  have b: "\<And>m. m < n \<Longrightarrow> \<not> normalized_length > 1 / (2 ^ m)"
    unfolding n_def by (rule not_less_Least)
  have "get_division_size_loop (Finite normalized_length) 0 = Some (int (0 + n) - 1)"
    by (rule get_division_size_loop_steps) (use a b in auto)
  then have "get_division_size (Finite normalized_length) = Some (Inr (int n - 1))"
    using pos by (simp add: get_division_size_def)
  with a b show ?thesis by blast
qed

text \<open>Every float but NaN gives a result: an error, or a division size.\<close>

lemma get_division_size_returns:
  "normalized_length \<noteq> NaN \<Longrightarrow> \<exists>result. get_division_size normalized_length = Some result"
proof (cases normalized_length)
  case (Finite x)
  show ?thesis
  proof (cases "x \<le> 0")
    case True
    then show ?thesis by (simp add: Finite get_division_size_def)
  next
    case False
    then have "0 < x" by simp
    from get_division_size_least [OF this] show ?thesis unfolding Finite by blast
  qed
next
  case PosInf
  have "get_division_size_loop PosInf 0 = Some (- 1)"
    by (subst get_division_size_loop.simps) simp
  then show ?thesis by (simp add: PosInf get_division_size_def)
next
  case NegInf
  then show ?thesis by (simp add: get_division_size_def)
next
  case NaN
  assume "normalized_length \<noteq> NaN"
  with NaN show ?thesis by simp
qed

lemma get_division_size_loop_nan: "get_division_size_loop NaN n = None"
proof (cases "get_division_size_loop NaN n")
  case None
  then show ?thesis .
next
  case (Some y)
  have "NaN \<noteq> NaN"
  proof (rule get_division_size_loop.raw_induct [where P = "\<lambda>x n y. x \<noteq> NaN", OF _ Some])
    fix loop :: "pyfloat \<Rightarrow> nat \<Rightarrow> int option" and x m z
    assume IH: "\<And>n b y. loop n b = Some y \<Longrightarrow> n \<noteq> NaN"
      and eq: "(if float_gt x (1 / 2 ^ m) then Some (int m - 1) else loop x (m + 1)) = Some z"
    show "x \<noteq> NaN"
    proof
      assume "x = NaN"
      with eq have "loop NaN (m + 1) = Some z" by simp
      from IH [OF this] show False by simp
    qed
  qed
  then show ?thesis by simp
qed

text \<open>
  C7. The loop of \<open>get_division_size\<close> should end for every input. It does not for NaN:
  \<open>nan <= 0\<close> is false, so the guard that raises \<open>RuntimeError\<close> lets it through, and
  \<open>nan > 1/(2**n)\<close> is false for every \<open>n\<close>, so the loop never reaches its
  \<open>return\<close>: the function does not return.
\<close>

theorem get_division_size_nan:
  "get_division_size NaN = None"
  by (simp add: get_division_size_def get_division_size_loop_nan)

subsection \<open>The UnAtlas selection transform\<close>

lemma py_max_Max: "xs \<noteq> [] \<Longrightarrow> py_max xs = Max (set xs)"
  by (cases xs) (simp_all add: Max.set_eq_fold [symmetric])

lemma py_min_Min: "xs \<noteq> [] \<Longrightarrow> py_min xs = Min (set xs)"
  by (cases xs) (simp_all add: Min.set_eq_fold [symmetric])

lemma py_pow2_powi: "py_pow2 k = 2 powi k"
  by (simp add: py_pow2_def power_int_def inverse_eq_divide power_one_over)

lemma py_int_nonneg: "0 \<le> x \<Longrightarrow> py_int x = \<lfloor>x\<rfloor>"
  by (simp add: py_int_def)

lemma get_division_size_quarter: "get_division_size (Finite (1 / 4)) = Some (Inr 2)"
  apply (simp add: get_division_size_def)
  apply (subst get_division_size_loop.simps, simp)+
  done

text \<open>
  C3 (amended). With a non-empty UV selection and \<open>allow_non_square\<close> false: when the
  bounding box of the selected UVs (the minimum and maximum of their u and v values) has
  positive width and height and its minimum u and v are not negative, the script takes
  \<open>d = 2^k\<close> with \<open>k\<close> the minimum of \<open>get_division_size\<close> of the width and of the
  height, the corner \<open>(floor(min_u * d) / d, floor(min_v * d) / d)\<close>, and replaces every
  selected \<open>uv\<close> by \<open>(uv - corner) * d\<close>; the data of the other loops is unchanged.
  When the bounding box has no width or no height, the script raises \<open>RuntimeError\<close>.
\<close>

theorem unatlas_transform:
  fixes faces :: "loopuv list list"
  defines "S \<equiv> filter select (concat faces)"
  defines "U \<equiv> set (map (\<lambda>l. fst (uv l)) S)"
  defines "V \<equiv> set (map (\<lambda>l. snd (uv l)) S)"
  assumes nonempty: "S \<noteq> []"
  shows "(Max U - Min U > 0 \<and> Max V - Min V > 0 \<and> 0 \<le> Min U \<and> 0 \<le> Min V \<longrightarrow>
          (\<exists>kx ky.
             get_division_size (Finite (Max U - Min U)) = Some (Inr kx) \<and>
             get_division_size (Finite (Max V - Min V)) = Some (Inr ky) \<and>
             (let d = 2 powi (min kx ky);
                  corner_u = real_of_int \<lfloor>Min U * d\<rfloor> / d;
                  corner_v = real_of_int \<lfloor>Min V * d\<rfloor> / d
              in unatlas False (Some faces) =
                   Some (Inr (Some (map (map (\<lambda>l. if select l
                                                  then l\<lparr>uv := ((fst (uv l) - corner_u) * d,
                                                                 (snd (uv l) - corner_v) * d)\<rparr>
                                                  else l)) faces)))))) \<and>
         (Max U - Min U \<le> 0 \<or> Max V - Min V \<le> 0 \<longrightarrow>
          unatlas False (Some faces) = Some (Inl RuntimeError))"
proof (intro conjI impI)
  have mU: "py_max (map (\<lambda>l. fst (uv l)) S) = Max U" "py_min (map (\<lambda>l. fst (uv l)) S) = Min U"
    using nonempty by (simp_all add: U_def py_max_Max py_min_Min)
  have mV: "py_max (map (\<lambda>l. snd (uv l)) S) = Max V" "py_min (map (\<lambda>l. snd (uv l)) S) = Min V"
    using nonempty by (simp_all add: V_def py_max_Max py_min_Min)
  {
    assume box: "Max U - Min U > 0 \<and> Max V - Min V > 0 \<and> 0 \<le> Min U \<and> 0 \<le> Min V"
    then have width: "Max U - Min U > 0" and height: "Max V - Min V > 0"
      and nu: "0 \<le> Min U" and nv: "0 \<le> Min V" by simp_all
    obtain nx where kx: "get_division_size (Finite (Max U - Min U)) = Some (Inr (int nx - 1))"
      using get_division_size_least [OF width] by blast
    obtain ny where ky: "get_division_size (Finite (Max V - Min V)) = Some (Inr (int ny - 1))"
      using get_division_size_least [OF height] by blast
    have run: "unatlas False (Some faces) =
        Some (Inr (Some (map (map (transform_uv
          (real_of_int (py_int (Min U * 2 powi (min (int nx - 1) (int ny - 1)))) / 2 powi (min (int nx - 1) (int ny - 1)),
           real_of_int (py_int (Min V * 2 powi (min (int nx - 1) (int ny - 1)))) / 2 powi (min (int nx - 1) (int ny - 1)))
          (2 powi (min (int nx - 1) (int ny - 1)), 2 powi (min (int nx - 1) (int ny - 1))))) faces)))"
      using nonempty kx ky
      by (simp add: unatlas_def Let_def S_def [symmetric] mU mV find_closest_division_def py_pow2_powi)
    have tr: "transform_uv (a, b) (d, d) =
        (\<lambda>l. if select l then l\<lparr>uv := ((fst (uv l) - a) * d, (snd (uv l) - b) * d)\<rparr> else l)"
      for a b d
      by (rule ext) (simp add: transform_uv_def)
    have fl: "0 \<le> m \<Longrightarrow> py_int (m * 2 powi k) = \<lfloor>m * 2 powi k\<rfloor>" for m k
      by (rule py_int_nonneg) simp
    show "\<exists>kx ky.
             get_division_size (Finite (Max U - Min U)) = Some (Inr kx) \<and>
             get_division_size (Finite (Max V - Min V)) = Some (Inr ky) \<and>
             (let d = 2 powi (min kx ky);
                  corner_u = real_of_int \<lfloor>Min U * d\<rfloor> / d;
                  corner_v = real_of_int \<lfloor>Min V * d\<rfloor> / d
              in unatlas False (Some faces) =
                   Some (Inr (Some (map (map (\<lambda>l. if select l
                                                  then l\<lparr>uv := ((fst (uv l) - corner_u) * d,
                                                                 (snd (uv l) - corner_v) * d)\<rparr>
                                                  else l)) faces))))"
      by (rule exI [of _ "int nx - 1"], rule exI [of _ "int ny - 1"])
         (simp only: kx ky Let_def run tr fl [OF nu] fl [OF nv] simp_thms)
  }
  {
    assume flat: "Max U - Min U \<le> 0 \<or> Max V - Min V \<le> 0"
    show "unatlas False (Some faces) = Some (Inl RuntimeError)"
    proof (cases "Max U - Min U \<le> 0")
      case True
      then show ?thesis
        using nonempty
        by (simp add: unatlas_def Let_def S_def [symmetric] mU mV get_division_size_def)
    next
      case False
      then have width: "Max U - Min U > 0" and height: "Max V - Min V \<le> 0" using flat by simp_all
      obtain nx where kx: "get_division_size (Finite (Max U - Min U)) = Some (Inr (int nx - 1))"
        using get_division_size_least [OF width] by blast
      have ky: "get_division_size (Finite (Max V - Min V)) = Some (Inl RuntimeError)"
        using height by (simp add: get_division_size_def)
      show ?thesis
        using nonempty kx ky
        by (simp add: unatlas_def Let_def S_def [symmetric] mU mV)
    qed
  }
qed

theorem unatlas_transform_witness:
  "unatlas False (Some
     [[\<lparr>uv = (1 / 8, 5 / 8), pin_uv = False, select = True\<rparr>,
       \<lparr>uv = (3 / 8, 7 / 8), pin_uv = False, select = True\<rparr>,
       \<lparr>uv = (5, 5), pin_uv = False, select = False\<rparr>]]) =
   Some (Inr (Some
     [[\<lparr>uv = (1 / 2, 1 / 2), pin_uv = False, select = True\<rparr>,
       \<lparr>uv = (3 / 2, 3 / 2), pin_uv = False, select = True\<rparr>,
       \<lparr>uv = (5, 5), pin_uv = False, select = False\<rparr>]])) \<and>
   unatlas False (Some [[\<lparr>uv = (1 / 4, 1 / 2), pin_uv = False, select = True\<rparr>,
                         \<lparr>uv = (1 / 2, 1 / 2), pin_uv = False, select = True\<rparr>]]) =
   Some (Inl RuntimeError)"
proof -
  have a: "filter select (concat
     [[\<lparr>uv = (1 / 8, 5 / 8), pin_uv = False, select = True\<rparr>,
       \<lparr>uv = (3 / 8, 7 / 8), pin_uv = False, select = True\<rparr>,
       \<lparr>uv = (5, 5), pin_uv = False, select = False\<rparr>]]) \<noteq> []"
    by simp
  have b: "filter select (concat [[\<lparr>uv = (1 / 4, 1 / 2), pin_uv = False, select = True\<rparr>,
                                   \<lparr>uv = (1 / 2, 1 / 2), pin_uv = False, select = True\<rparr>]]) \<noteq> []"
    by simp
  from unatlas_transform [OF a] unatlas_transform [OF b]
  show ?thesis
    by (simp add: get_division_size_quarter Let_def)
qed

text \<open>
  Stated for every non-empty selection, the property fails on one whose bounding box has no width, where
  the script raises \<open>RuntimeError\<close> and changes nothing. It also fails on a selection
  with a negative minimum, where \<open>int\<close> is not the floor: with \<open>d = 4\<close> the first
  coordinate becomes \<open>-1/2\<close>, not the \<open>1/2\<close> that the floor gives.
\<close>

theorem unatlas_floor_counterexample:
  "unatlas False (Some [[\<lparr>uv = (1 / 2, 1 / 2), pin_uv = False, select = True\<rparr>]]) = Some (Inl RuntimeError) \<and>
   unatlas False (Some [[\<lparr>uv = (- 3 / 8, 1 / 8), pin_uv = False, select = True\<rparr>,
                         \<lparr>uv = (- 1 / 8, 3 / 8), pin_uv = False, select = True\<rparr>]]) =
     Some (Inr (Some [[\<lparr>uv = (- 1 / 2, 1 / 2), pin_uv = False, select = True\<rparr>,
                       \<lparr>uv = (1 / 2, 3 / 2), pin_uv = False, select = True\<rparr>]])) \<and>
   get_division_size (Finite (- 1 / 8 - (- 3 / 8))) = Some (Inr 2) \<and>
   get_division_size (Finite (3 / 8 - 1 / 8)) = Some (Inr 2) \<and>
   (- 3 / 8 - real_of_int \<lfloor>- 3 / 8 * 2 ^ 2 :: real\<rfloor> / 2 ^ 2) * 2 ^ 2 \<noteq> (- 1 / 2 :: real)"
  by (simp add: unatlas_def get_division_size_quarter get_division_size_def [of "Finite 0"] py_pow2_def
      find_closest_division_def py_int_def transform_uv_def)

subsection \<open>Cycling to the next sibling bone\<close>

lemma index_of_None: "index_of xs a = None \<longleftrightarrow> a \<notin> set xs"
  by (induction xs) auto

lemma index_of_split:
  "index_of xs a = Some i \<Longrightarrow> \<exists>before after. xs = before @ a # after \<and> a \<notin> set before \<and> i = length before"
proof (induction xs arbitrary: i)
  case Nil
  then show ?case by simp
next
  case (Cons y ys)
  show ?case
  proof (cases "y = a")
    case True
    then have "i = 0" using Cons.prems by simp
    then show ?thesis using True by (intro exI [of _ "[]"] exI [of _ ys]) simp
  next
    case False
    then obtain j where j: "index_of ys a = Some j" "i = Suc j"
      using Cons.prems by auto
    from Cons.IH [OF j(1)] obtain before after
      where "ys = before @ a # after" "a \<notin> set before" "j = length before" by blast
    then show ?thesis using False j(2)
      by (intro exI [of _ "y # before"] exI [of _ after]) simp
  qed
qed

lemma set_children: "set (children bs p) = {i. i < length bs \<and> bone_parent (bs ! i) = Some p}"
  by (auto simp: children_def)

lemma distinct_children: "distinct (children bs p)"
  by (simp add: children_def)

lemma set_py_sorted: "set (py_sorted f r xs) = set xs"
  by (simp add: py_sorted_def)

lemma distinct_py_sorted: "distinct (py_sorted f r xs) = distinct xs"
  by (simp add: py_sorted_def)

lemma set_ordered_siblings:
  "set (ordered_siblings props bs p) = {i. i < length bs \<and> bone_parent (bs ! i) = Some p}"
  by (simp add: ordered_siblings_def Let_def set_py_sorted set_children)

lemma distinct_ordered_siblings: "distinct (ordered_siblings props bs p)"
  by (simp add: ordered_siblings_def Let_def distinct_py_sorted distinct_children)

lemma filter_find_None: "find P xs = None \<Longrightarrow> filter P xs = []"
  by (induction xs) (auto split: if_splits)

lemma filter_find_Some: "find P xs = Some x \<Longrightarrow> \<exists>rest. filter P xs = x # rest"
  by (induction xs) (auto split: if_splits)

lemma sorted_ordered_siblings:
  "cycle_order props = ''ALPHABETICAL'' \<Longrightarrow>
   (if cycle_direction props = ''BACKWARDS''
    then sorted (rev (map (\<lambda>b. bone_name (bs ! b)) (ordered_siblings props bs p)))
    else sorted (map (\<lambda>b. bone_name (bs ! b)) (ordered_siblings props bs p)))"
  by (simp add: ordered_siblings_def py_sorted_def Let_def rev_map [symmetric])

lemma upt4: "[0..<4] = [0, 1, 2, 3]"
  by (simp add: upt_rec)

lemma visible_eq:
  "visible bs = (\<lambda>b. \<not> bone_hide (bs ! b) \<and> \<not> bone_hide_select (bs ! b))"
  by (rule ext) (simp add: visible_def)

lemma upt5: "[0..<5] = [0, 1, 2, 3, 4]"
  by (simp add: upt_rec)

lemma cycle_execute_core:
  assumes act: "(if mode context = ''EDIT_ARMATURE'' then active_bone context else active_pose_bone context) = Some a"
    and a: "a < length (bones context)"
    and par: "bone_parent (bones context ! a) = Some p"
  shows "\<exists>before after.
           ordered_siblings props (bones context) p = before @ a # after \<and>
           a \<notin> set before \<and> a \<notin> set after \<and>
           (case find (visible (bones context)) (after @ before) of
              None \<Rightarrow> cycle_execute props context = Inr (CANCELLED, context)
            | Some next_bone \<Rightarrow>
                (\<exists>context'.
                   cycle_execute props context = Inr (FINISHED, context') \<and>
                   (if mode context = ''EDIT_ARMATURE'' then active_bone context' else active_pose_bone context')
                     = Some next_bone \<and>
                   mode context' = mode context \<and>
                   length (bones context') = length (bones context) \<and>
                   bones context' ! next_bone = set_select True (bones context ! next_bone) \<and>
                   bones context' ! a =
                     (if cycle_extend props then bones context ! a else set_select False (bones context ! a)) \<and>
                   (\<forall>i < length (bones context). i \<noteq> next_bone \<and> i \<noteq> a \<longrightarrow>
                        bones context' ! i = bones context ! i)))"
proof -
  let ?sib = "ordered_siblings props (bones context) p"
  have "a \<in> set ?sib" using a par by (simp add: set_ordered_siblings)
  then obtain i where i: "index_of ?sib a = Some i"
    using index_of_None [of ?sib a] by (cases "index_of ?sib a") auto
  from index_of_split [OF i] obtain before after
    where sp: "?sib = before @ a # after" "a \<notin> set before" "i = length before" by blast
  have dist: "distinct (before @ a # after)"
    using distinct_ordered_siblings [of props "bones context" p] sp(1) by simp
  then have na: "a \<notin> set after" by simp
  have chain: "drop (i + 1) ?sib @ take i ?sib = after @ before"
    using sp by simp
  have inr: "\<And>b. b \<in> set (after @ before) \<Longrightarrow> b < length (bones context) \<and> b \<noteq> a"
  proof -
    fix b assume b: "b \<in> set (after @ before)"
    then have "b \<in> set ?sib" using sp(1) by auto
    then have "b < length (bones context)" by (simp add: set_ordered_siblings)
    moreover have "b \<noteq> a" using b na sp(2) by auto
    ultimately show "b < length (bones context) \<and> b \<noteq> a" by simp
  qed
  show ?thesis
  proof (rule exI [of _ before], rule exI [of _ after], intro conjI sp(1) sp(2) na)
    show "case find (visible (bones context)) (after @ before) of
              None \<Rightarrow> cycle_execute props context = Inr (CANCELLED, context)
            | Some next_bone \<Rightarrow>
                (\<exists>context'.
                   cycle_execute props context = Inr (FINISHED, context') \<and>
                   (if mode context = ''EDIT_ARMATURE'' then active_bone context' else active_pose_bone context')
                     = Some next_bone \<and>
                   mode context' = mode context \<and>
                   length (bones context') = length (bones context) \<and>
                   bones context' ! next_bone = set_select True (bones context ! next_bone) \<and>
                   bones context' ! a =
                     (if cycle_extend props then bones context ! a else set_select False (bones context ! a)) \<and>
                   (\<forall>i < length (bones context). i \<noteq> next_bone \<and> i \<noteq> a \<longrightarrow>
                        bones context' ! i = bones context ! i))"
    proof (cases "find (visible (bones context)) (after @ before)")
      case None
      then have "filter (visible (bones context)) (after @ before) = []"
        by (rule filter_find_None)
      then have "cycle_execute props context = Inr (CANCELLED, context)"
        using act par i chain by (simp add: cycle_execute_def Let_def)
      then show ?thesis using None by simp
    next
      case (Some nb)
      from filter_find_Some [OF Some]
      obtain rest where f: "filter (visible (bones context)) (after @ before) = nb # rest" ..
      have "nb \<in> set (after @ before)" using Some by (metis find_Some_iff nth_mem)
      then have nb: "nb < length (bones context)" "nb \<noteq> a" using inr by auto
      show ?thesis
        using act par i chain f nb a Some
        by (auto simp add: cycle_execute_def Let_def simp del: filter_append)
    qed
  qed
qed

text \<open>
  C1. When the active bone has a parent, its siblings are the bones with that parent, in the
  order of the collection for the default ordering and sorted by name for the alphabetical
  one, reversed for the backwards direction. With the siblings in this order being
  \<open>before @ active # after\<close>, the cycle order is \<open>after @ before\<close>. The bone that gets
  selected and made active is the first bone of the cycle order that is neither hidden nor
  selection-hidden; the old active bone is deselected unless \<open>extend\<close> is set, and no
  other bone changes. When no bone of the cycle order is visible, \<open>execute\<close> returns
  \<open>CANCELLED\<close> and the context is unchanged.
\<close>

theorem cycle_execute_next_visible:
  fixes props :: cycle_props
  assumes act: "(if mode context = ''EDIT_ARMATURE'' then active_bone context else active_pose_bone context) = Some a"
    and a: "a < length (bones context)"
    and par: "bone_parent (bones context ! a) = Some p"
  defines "cs \<equiv> filter (\<lambda>i. bone_parent (bones context ! i) = Some p) [0..<length (bones context)]"
  defines "siblings \<equiv>
             if cycle_order props = ''ALPHABETICAL''
             then (if cycle_direction props = ''BACKWARDS''
                   then rev (sort_key (\<lambda>b. bone_name (bones context ! b)) (rev cs))
                   else sort_key (\<lambda>b. bone_name (bones context ! b)) cs)
             else if cycle_direction props = ''BACKWARDS'' then rev cs else cs"
  shows "(\<exists>before after.
           siblings = before @ a # after \<and>
           a \<notin> set before \<and> a \<notin> set after \<and>
           (case find (\<lambda>b. \<not> bone_hide (bones context ! b) \<and> \<not> bone_hide_select (bones context ! b))
                   (after @ before) of
              None \<Rightarrow> cycle_execute props context = Inr (CANCELLED, context)
            | Some next_bone \<Rightarrow>
                (\<exists>context'.
                   cycle_execute props context = Inr (FINISHED, context') \<and>
                   (if mode context = ''EDIT_ARMATURE'' then active_bone context' else active_pose_bone context')
                     = Some next_bone \<and>
                   mode context' = mode context \<and>
                   length (bones context') = length (bones context) \<and>
                   bones context' ! next_bone =
                     (bones context ! next_bone)
                       \<lparr>bone_select := True, bone_select_head := True, bone_select_tail := True\<rparr> \<and>
                   bones context' ! a =
                     (if cycle_extend props then bones context ! a
                      else (bones context ! a)
                             \<lparr>bone_select := False, bone_select_head := False, bone_select_tail := False\<rparr>) \<and>
                   (\<forall>i < length (bones context). i \<noteq> next_bone \<and> i \<noteq> a \<longrightarrow>
                        bones context' ! i = bones context ! i)))) \<and>
         (cycle_order props = ''ALPHABETICAL'' \<longrightarrow>
            (if cycle_direction props = ''BACKWARDS''
             then sorted (rev (map (\<lambda>b. bone_name (bones context ! b)) siblings))
             else sorted (map (\<lambda>b. bone_name (bones context ! b)) siblings)))"
proof -
  have sib: "ordered_siblings props (bones context) p = siblings"
    by (simp add: ordered_siblings_def children_def py_sorted_def Let_def siblings_def cs_def)
  show ?thesis
    using cycle_execute_core [OF act a par, of props]
          sorted_ordered_siblings [of props "bones context" p]
    unfolding sib visible_eq set_select_def
    by blast
qed

theorem cycle_execute_next_visible_witness:
  "cycle_execute \<lparr>cycle_direction = ''FORWARDS'', cycle_extend = False, cycle_order = ''DEFAULT''\<rparr>
     \<lparr>mode = ''EDIT_ARMATURE'',
      bones = [\<lparr>bone_name = ''root'', bone_parent = None, bone_hide = False, bone_hide_select = False,
                 bone_select = False, bone_select_head = False, bone_select_tail = False\<rparr>,
               \<lparr>bone_name = ''a'', bone_parent = Some 0, bone_hide = False, bone_hide_select = False,
                 bone_select = True, bone_select_head = True, bone_select_tail = True\<rparr>,
               \<lparr>bone_name = ''b'', bone_parent = Some 0, bone_hide = True, bone_hide_select = False,
                 bone_select = False, bone_select_head = False, bone_select_tail = False\<rparr>,
               \<lparr>bone_name = ''c'', bone_parent = Some 0, bone_hide = False, bone_hide_select = False,
                 bone_select = False, bone_select_head = False, bone_select_tail = False\<rparr>],
      active_bone = Some 1, active_pose_bone = None\<rparr> =
   Inr (FINISHED,
     \<lparr>mode = ''EDIT_ARMATURE'',
      bones = [\<lparr>bone_name = ''root'', bone_parent = None, bone_hide = False, bone_hide_select = False,
                 bone_select = False, bone_select_head = False, bone_select_tail = False\<rparr>,
               \<lparr>bone_name = ''a'', bone_parent = Some 0, bone_hide = False, bone_hide_select = False,
                 bone_select = False, bone_select_head = False, bone_select_tail = False\<rparr>,
               \<lparr>bone_name = ''b'', bone_parent = Some 0, bone_hide = True, bone_hide_select = False,
                 bone_select = False, bone_select_head = False, bone_select_tail = False\<rparr>,
               \<lparr>bone_name = ''c'', bone_parent = Some 0, bone_hide = False, bone_hide_select = False,
                 bone_select = True, bone_select_head = True, bone_select_tail = True\<rparr>],
      active_bone = Some 3, active_pose_bone = None\<rparr>) \<and>
   map_sum id (active_pose_bone \<circ> snd) (cycle_execute \<lparr>cycle_direction = ''FORWARDS'', cycle_extend = True, cycle_order = ''DEFAULT''\<rparr>
     \<lparr>mode = ''POSE'',
      bones = [\<lparr>bone_name = ''root'', bone_parent = None, bone_hide = False, bone_hide_select = False,
                 bone_select = False, bone_select_head = False, bone_select_tail = False\<rparr>,
               \<lparr>bone_name = ''d'', bone_parent = Some 0, bone_hide = True, bone_hide_select = False,
                 bone_select = False, bone_select_head = False, bone_select_tail = False\<rparr>,
               \<lparr>bone_name = ''a'', bone_parent = Some 0, bone_hide = False, bone_hide_select = False,
                 bone_select = False, bone_select_head = False, bone_select_tail = False\<rparr>,
               \<lparr>bone_name = ''c'', bone_parent = Some 0, bone_hide = False, bone_hide_select = False,
                 bone_select = True, bone_select_head = True, bone_select_tail = True\<rparr>,
               \<lparr>bone_name = ''b'', bone_parent = Some 0, bone_hide = False, bone_hide_select = False,
                 bone_select = False, bone_select_head = False, bone_select_tail = False\<rparr>],
      active_bone = None, active_pose_bone = Some 3\<rparr>) = Inr (Some 4) \<and>
   map_sum id (active_pose_bone \<circ> snd) (cycle_execute \<lparr>cycle_direction = ''BACKWARDS'', cycle_extend = True, cycle_order = ''DEFAULT''\<rparr>
     \<lparr>mode = ''POSE'',
      bones = [\<lparr>bone_name = ''root'', bone_parent = None, bone_hide = False, bone_hide_select = False,
                 bone_select = False, bone_select_head = False, bone_select_tail = False\<rparr>,
               \<lparr>bone_name = ''d'', bone_parent = Some 0, bone_hide = True, bone_hide_select = False,
                 bone_select = False, bone_select_head = False, bone_select_tail = False\<rparr>,
               \<lparr>bone_name = ''a'', bone_parent = Some 0, bone_hide = False, bone_hide_select = False,
                 bone_select = False, bone_select_head = False, bone_select_tail = False\<rparr>,
               \<lparr>bone_name = ''c'', bone_parent = Some 0, bone_hide = False, bone_hide_select = False,
                 bone_select = True, bone_select_head = True, bone_select_tail = True\<rparr>,
               \<lparr>bone_name = ''b'', bone_parent = Some 0, bone_hide = False, bone_hide_select = False,
                 bone_select = False, bone_select_head = False, bone_select_tail = False\<rparr>],
      active_bone = None, active_pose_bone = Some 3\<rparr>) = Inr (Some 2) \<and>
   map_sum id (active_pose_bone \<circ> snd) (cycle_execute \<lparr>cycle_direction = ''FORWARDS'', cycle_extend = True, cycle_order = ''ALPHABETICAL''\<rparr>
     \<lparr>mode = ''POSE'',
      bones = [\<lparr>bone_name = ''root'', bone_parent = None, bone_hide = False, bone_hide_select = False,
                 bone_select = False, bone_select_head = False, bone_select_tail = False\<rparr>,
               \<lparr>bone_name = ''d'', bone_parent = Some 0, bone_hide = True, bone_hide_select = False,
                 bone_select = False, bone_select_head = False, bone_select_tail = False\<rparr>,
               \<lparr>bone_name = ''a'', bone_parent = Some 0, bone_hide = False, bone_hide_select = False,
                 bone_select = False, bone_select_head = False, bone_select_tail = False\<rparr>,
               \<lparr>bone_name = ''c'', bone_parent = Some 0, bone_hide = False, bone_hide_select = False,
                 bone_select = True, bone_select_head = True, bone_select_tail = True\<rparr>,
               \<lparr>bone_name = ''b'', bone_parent = Some 0, bone_hide = False, bone_hide_select = False,
                 bone_select = False, bone_select_head = False, bone_select_tail = False\<rparr>],
      active_bone = None, active_pose_bone = Some 3\<rparr>) = Inr (Some 2) \<and>
   map_sum id (active_pose_bone \<circ> snd) (cycle_execute \<lparr>cycle_direction = ''BACKWARDS'', cycle_extend = True, cycle_order = ''ALPHABETICAL''\<rparr>
     \<lparr>mode = ''POSE'',
      bones = [\<lparr>bone_name = ''root'', bone_parent = None, bone_hide = False, bone_hide_select = False,
                 bone_select = False, bone_select_head = False, bone_select_tail = False\<rparr>,
               \<lparr>bone_name = ''d'', bone_parent = Some 0, bone_hide = True, bone_hide_select = False,
                 bone_select = False, bone_select_head = False, bone_select_tail = False\<rparr>,
               \<lparr>bone_name = ''a'', bone_parent = Some 0, bone_hide = False, bone_hide_select = False,
                 bone_select = False, bone_select_head = False, bone_select_tail = False\<rparr>,
               \<lparr>bone_name = ''c'', bone_parent = Some 0, bone_hide = False, bone_hide_select = False,
                 bone_select = True, bone_select_head = True, bone_select_tail = True\<rparr>,
               \<lparr>bone_name = ''b'', bone_parent = Some 0, bone_hide = False, bone_hide_select = False,
                 bone_select = False, bone_select_head = False, bone_select_tail = False\<rparr>],
      active_bone = None, active_pose_bone = Some 3\<rparr>) = Inr (Some 4) \<and>
   cycle_execute \<lparr>cycle_direction = ''BACKWARDS'', cycle_extend = False, cycle_order = ''ALPHABETICAL''\<rparr>
     \<lparr>mode = ''POSE'',
      bones = [\<lparr>bone_name = ''root'', bone_parent = None, bone_hide = False, bone_hide_select = False,
                 bone_select = False, bone_select_head = False, bone_select_tail = False\<rparr>,
               \<lparr>bone_name = ''a'', bone_parent = Some 0, bone_hide = False, bone_hide_select = False,
                 bone_select = True, bone_select_head = True, bone_select_tail = True\<rparr>,
               \<lparr>bone_name = ''b'', bone_parent = Some 0, bone_hide = True, bone_hide_select = False,
                 bone_select = False, bone_select_head = False, bone_select_tail = False\<rparr>,
               \<lparr>bone_name = ''c'', bone_parent = Some 0, bone_hide = False, bone_hide_select = True,
                 bone_select = False, bone_select_head = False, bone_select_tail = False\<rparr>],
      active_bone = None, active_pose_bone = Some 1\<rparr> =
   Inr (CANCELLED,
     \<lparr>mode = ''POSE'',
      bones = [\<lparr>bone_name = ''root'', bone_parent = None, bone_hide = False, bone_hide_select = False,
                 bone_select = False, bone_select_head = False, bone_select_tail = False\<rparr>,
               \<lparr>bone_name = ''a'', bone_parent = Some 0, bone_hide = False, bone_hide_select = False,
                 bone_select = True, bone_select_head = True, bone_select_tail = True\<rparr>,
               \<lparr>bone_name = ''b'', bone_parent = Some 0, bone_hide = True, bone_hide_select = False,
                 bone_select = False, bone_select_head = False, bone_select_tail = False\<rparr>,
               \<lparr>bone_name = ''c'', bone_parent = Some 0, bone_hide = False, bone_hide_select = True,
                 bone_select = False, bone_select_head = False, bone_select_tail = False\<rparr>],
      active_bone = None, active_pose_bone = Some 1\<rparr>)"
  (is "cycle_execute ?props ?context = ?r1 \<and>
       map_sum id _ (cycle_execute ?fd ?pose) = _ \<and>
       map_sum id _ (cycle_execute ?bd ?pose) = _ \<and>
       map_sum id _ (cycle_execute ?fa ?pose) = _ \<and>
       map_sum id _ (cycle_execute ?ba ?pose) = _ \<and>
       cycle_execute ?none ?hidden = ?r6")
proof -
  have h1: "(if mode ?context = ''EDIT_ARMATURE'' then active_bone ?context else active_pose_bone ?context) = Some 1"
    by simp
  have h2: "1 < length (bones ?context)" by simp
  have h3: "bone_parent (bones ?context ! 1) = Some 0" by simp
  have g1: "(if mode ?pose = ''EDIT_ARMATURE'' then active_bone ?pose else active_pose_bone ?pose) = Some 3"
    by simp
  have g2: "3 < length (bones ?pose)" by simp
  have g3: "bone_parent (bones ?pose ! 3) = Some 0" by simp
  have k1: "(if mode ?hidden = ''EDIT_ARMATURE'' then active_bone ?hidden else active_pose_bone ?hidden) = Some 1"
    by simp
  have k2: "1 < length (bones ?hidden)" by simp
  have k3: "bone_parent (bones ?hidden ! 1) = Some 0" by simp
  have r1: "cycle_execute ?props ?context = ?r1"
    using cycle_execute_next_visible [OF h1 h2 h3, of ?props, THEN conjunct1]
    by (simp add: cycle_execute_def ordered_siblings_def children_def py_sorted_def upt4 upt5 visible_def set_select_def)
  have r2: "map_sum id (active_pose_bone \<circ> snd) (cycle_execute ?fd ?pose) = Inr (Some 4)"
    using cycle_execute_next_visible [OF g1 g2 g3, of ?fd, THEN conjunct1]
    by (simp add: cycle_execute_def ordered_siblings_def children_def py_sorted_def upt4 upt5 visible_def set_select_def)
  have r3: "map_sum id (active_pose_bone \<circ> snd) (cycle_execute ?bd ?pose) = Inr (Some 2)"
    using cycle_execute_next_visible [OF g1 g2 g3, of ?bd, THEN conjunct1]
    by (simp add: cycle_execute_def ordered_siblings_def children_def py_sorted_def upt4 upt5 visible_def set_select_def)
  have r4: "map_sum id (active_pose_bone \<circ> snd) (cycle_execute ?fa ?pose) = Inr (Some 2)"
    using cycle_execute_next_visible [OF g1 g2 g3, of ?fa, THEN conjunct1]
    by (simp add: cycle_execute_def ordered_siblings_def children_def py_sorted_def upt4 upt5 visible_def set_select_def)
  have r5: "map_sum id (active_pose_bone \<circ> snd) (cycle_execute ?ba ?pose) = Inr (Some 4)"
    using cycle_execute_next_visible [OF g1 g2 g3, of ?ba, THEN conjunct1]
    by (simp add: cycle_execute_def ordered_siblings_def children_def py_sorted_def upt4 upt5 visible_def set_select_def)
  have r6: "cycle_execute ?none ?hidden = ?r6"
    using cycle_execute_next_visible [OF k1 k2 k3, of ?none, THEN conjunct1]
    by (simp add: cycle_execute_def ordered_siblings_def children_def py_sorted_def upt4 upt5 visible_def set_select_def)
  from r1 r2 r3 r4 r5 r6 show ?thesis by simp
qed

subsection \<open>The polls\<close>

text \<open>
  C5. \<open>ClearPendingChanges.poll\<close> is true exactly when the mode is \<open>EDIT_MESH\<close> and every
  mesh in edit mode has shape keys, and it sets the message \<open>Must be in edit mode\<close> or
  \<open>All meshes in edit mode must have shape keys\<close> when it is false. The poll of the
  select-by-vertex-groups operator is true exactly when the mode is \<open>EDIT_MESH\<close> with at
  least one object in edit mode, vertex selection mode is on and one of the objects has
  vertex groups; it sets a message whenever it is false.
\<close>

theorem polls_validate:
  "(fst (clear_poll context) \<longleftrightarrow>
      mesh_mode context = ''EDIT_MESH'' \<and>
      (\<forall>obj \<in> set (objects_in_mode_unique_data context). shape_keys obj \<noteq> None)) \<and>
   (mesh_mode context \<noteq> ''EDIT_MESH'' \<longrightarrow> snd (clear_poll context) = Some ''Must be in edit mode'') \<and>
   (mesh_mode context = ''EDIT_MESH'' \<and> \<not> fst (clear_poll context) \<longrightarrow>
      snd (clear_poll context) = Some ''All meshes in edit mode must have shape keys'') \<and>
   (fst (clear_poll context) \<longrightarrow> snd (clear_poll context) = None) \<and>
   (fst (vg_poll vg_context) \<longleftrightarrow>
      vg_mode vg_context = ''EDIT_MESH'' \<and> vg_objects vg_context \<noteq> [] \<and>
      mesh_select_mode_vertex vg_context \<and>
      (\<exists>obj \<in> set (vg_objects vg_context). vertex_groups obj \<noteq> [])) \<and>
   (\<not> fst (vg_poll vg_context) \<longrightarrow> snd (vg_poll vg_context) \<noteq> None)"
  by (simp add: clear_poll_def poll_mode_def vg_poll_def Let_def list_all_iff list_ex_iff)

theorem polls_validate_witness:
  "fst (clear_poll \<lparr>mesh_mode = ''EDIT_MESH'', objects_in_mode_unique_data =
         [\<lparr>shape_keys = Some \<lparr>use_relative = True, reference_key = ''Basis'',
                               key_blocks = [\<lparr>block_name = ''Basis'', relative_key = ''Basis''\<rparr>]\<rparr>,
           active_shape_key_index = 0, verts = []\<rparr>]\<rparr>) \<and>
   clear_poll \<lparr>mesh_mode = ''OBJECT'', objects_in_mode_unique_data = []\<rparr> = (False, Some ''Must be in edit mode'') \<and>
   clear_poll \<lparr>mesh_mode = ''EDIT_MESH'', objects_in_mode_unique_data =
         [\<lparr>shape_keys = None, active_shape_key_index = 0, verts = []\<rparr>]\<rparr> =
     (False, Some ''All meshes in edit mode must have shape keys'') \<and>
   fst (vg_poll \<lparr>vg_mode = ''EDIT_MESH'', vg_objects =
         [\<lparr>vertex_groups = [''Group''], modifiers = [], deform_layer = True, dverts = []\<rparr>],
         mesh_select_mode_vertex = True\<rparr>) \<and>
   \<not> fst (vg_poll \<lparr>vg_mode = ''EDIT_MESH'', vg_objects =
         [\<lparr>vertex_groups = [], modifiers = [], deform_layer = True, dverts = []\<rparr>],
         mesh_select_mode_vertex = True\<rparr>)"
  using polls_validate [of "\<lparr>mesh_mode = ''EDIT_MESH'', objects_in_mode_unique_data =
         [\<lparr>shape_keys = Some \<lparr>use_relative = True, reference_key = ''Basis'',
                               key_blocks = [\<lparr>block_name = ''Basis'', relative_key = ''Basis''\<rparr>]\<rparr>,
           active_shape_key_index = 0, verts = []\<rparr>]\<rparr>"
        "\<lparr>vg_mode = ''EDIT_MESH'', vg_objects =
         [\<lparr>vertex_groups = [''Group''], modifiers = [], deform_layer = True, dverts = []\<rparr>],
         mesh_select_mode_vertex = True\<rparr>"]
    polls_validate [of "\<lparr>mesh_mode = ''OBJECT'', objects_in_mode_unique_data = []\<rparr>"
        "\<lparr>vg_mode = ''EDIT_MESH'', vg_objects =
         [\<lparr>vertex_groups = [], modifiers = [], deform_layer = True, dverts = []\<rparr>],
         mesh_select_mode_vertex = True\<rparr>"]
    polls_validate [of "\<lparr>mesh_mode = ''EDIT_MESH'', objects_in_mode_unique_data =
         [\<lparr>shape_keys = None, active_shape_key_index = 0, verts = []\<rparr>]\<rparr>"
        "\<lparr>vg_mode = ''EDIT_MESH'', vg_objects =
         [\<lparr>vertex_groups = [], modifiers = [], deform_layer = True, dverts = []\<rparr>],
         mesh_select_mode_vertex = True\<rparr>"]
  by (simp add: prod_eq_iff)

subsection \<open>Selecting by the number of vertex groups\<close>








subsection \<open>ClearPendingChanges.execute\<close>

lemma for_each_Inr:
  "for_each f xs = Inr ys \<Longrightarrow> list_all2 (\<lambda>x y. f x = Inr y) xs ys"
proof (induction xs arbitrary: ys)
  case Nil
  then show ?case by auto
next
  case (Cons x xs)
  then show ?case by (auto split: sum.splits)
qed

lemma for_each_returns:
  "(\<And>x. x \<in> set xs \<Longrightarrow> \<exists>y. f x = Inr y) \<Longrightarrow> \<exists>ys. for_each f xs = Inr ys"
proof (induction xs)
  case Nil
  then show ?case by simp
next
  case (Cons x xs)
  then obtain y where "f x = Inr y" by auto
  moreover obtain ys where "for_each f xs = Inr ys" using Cons by auto
  ultimately show ?case by simp
qed

lemma clear_object_frame:
  assumes "clear_object obj = Inr obj'"
  shows "shape_keys obj' = shape_keys obj \<and>
         active_shape_key_index obj' = active_shape_key_index obj \<and>
         length (verts obj') = length (verts obj) \<and>
         (total_vert_sel obj = 0 \<longrightarrow> obj' = obj) \<and>
         (\<forall>j < length (verts obj).
            vert_select (verts obj' ! j) = vert_select (verts obj ! j) \<and>
            vert_hide (verts obj' ! j) = vert_hide (verts obj ! j) \<and>
            shape (verts obj' ! j) = shape (verts obj ! j) \<and>
            co (verts obj' ! j) =
              (if vert_select (verts obj ! j) \<and> \<not> vert_hide (verts obj ! j)
               then shape (verts obj ! j) ! active_shape_key_index obj
               else co (verts obj ! j)))"
proof (cases "total_vert_sel obj = 0")
  case True
  then have "\<forall>j < length (verts obj). \<not> vert_select (verts obj ! j)"
    by (simp add: total_vert_sel_def filter_empty_conv)
  moreover have "obj' = obj" using assms True by (simp add: clear_object_def)
  ultimately show ?thesis by simp
next
  case False
  then show ?thesis using assms
    by (auto simp: clear_object_def shape_layer_by_index_def split: if_splits)
qed

lemma clear_object_returns:
  "total_vert_sel obj \<noteq> 0 \<longrightarrow> active_shape_key_index obj < length (shape_layer_names obj) \<Longrightarrow>
   \<exists>obj'. clear_object obj = Inr obj'"
  by (auto simp: clear_object_def shape_layer_by_index_def)

text \<open>
  C10. When the active shape key index of every mesh with selected vertices names one of its
  shape layers, \<open>ClearPendingChanges.execute\<close> returns \<open>FINISHED\<close> and changes only
  coordinates: the coordinate of a vertex that is selected and not hidden becomes its value
  in the active shape layer, every other coordinate, the flags and the shape layers of every
  vertex stay as they were, and a mesh without selected vertices is unchanged.
\<close>

theorem clear_execute_frame:
  assumes valid: "\<forall>obj \<in> set (objects_in_mode_unique_data context).
             total_vert_sel obj \<noteq> 0 \<longrightarrow> active_shape_key_index obj < length (shape_layer_names obj)"
  shows "\<exists>objects'.
           clear_execute context = Inr (FINISHED, context\<lparr>objects_in_mode_unique_data := objects'\<rparr>) \<and>
           length objects' = length (objects_in_mode_unique_data context) \<and>
           (\<forall>i < length (objects_in_mode_unique_data context).
              shape_keys (objects' ! i) = shape_keys (objects_in_mode_unique_data context ! i) \<and>
              active_shape_key_index (objects' ! i) =
                active_shape_key_index (objects_in_mode_unique_data context ! i) \<and>
              length (verts (objects' ! i)) = length (verts (objects_in_mode_unique_data context ! i)) \<and>
              (total_vert_sel (objects_in_mode_unique_data context ! i) = 0 \<longrightarrow>
                 objects' ! i = objects_in_mode_unique_data context ! i) \<and>
              (\<forall>j < length (verts (objects_in_mode_unique_data context ! i)).
                 vert_select (verts (objects' ! i) ! j) =
                   vert_select (verts (objects_in_mode_unique_data context ! i) ! j) \<and>
                 vert_hide (verts (objects' ! i) ! j) =
                   vert_hide (verts (objects_in_mode_unique_data context ! i) ! j) \<and>
                 shape (verts (objects' ! i) ! j) = shape (verts (objects_in_mode_unique_data context ! i) ! j) \<and>
                 co (verts (objects' ! i) ! j) =
                   (if vert_select (verts (objects_in_mode_unique_data context ! i) ! j) \<and>
                       \<not> vert_hide (verts (objects_in_mode_unique_data context ! i) ! j)
                    then shape (verts (objects_in_mode_unique_data context ! i) ! j) !
                           active_shape_key_index (objects_in_mode_unique_data context ! i)
                    else co (verts (objects_in_mode_unique_data context ! i) ! j))))"
proof -
  let ?objs = "objects_in_mode_unique_data context"
  have "\<And>obj. obj \<in> set ?objs \<Longrightarrow> \<exists>obj'. clear_object obj = Inr obj'"
    using valid clear_object_returns by blast
  then obtain objects' where run: "for_each clear_object ?objs = Inr objects'"
    using for_each_returns [of ?objs clear_object] by blast
  then have all2: "list_all2 (\<lambda>x y. clear_object x = Inr y) ?objs objects'"
    by (rule for_each_Inr)
  then have len: "length objects' = length ?objs"
    by (simp add: list_all2_lengthD)
  have each: "\<And>i. i < length ?objs \<Longrightarrow> clear_object (?objs ! i) = Inr (objects' ! i)"
    using all2 by (simp add: list_all2_conv_all_nth)
  have ex: "clear_execute context = Inr (FINISHED, context\<lparr>objects_in_mode_unique_data := objects'\<rparr>)"
    using run by (simp add: clear_execute_def)
  have main: "\<forall>i < length ?objs.
shape_keys (objects' ! i) = shape_keys (?objs ! i) \<and>
              active_shape_key_index (objects' ! i) = active_shape_key_index (?objs ! i) \<and>
              length (verts (objects' ! i)) = length (verts (?objs ! i)) \<and>
              (total_vert_sel (?objs ! i) = 0 \<longrightarrow> objects' ! i = ?objs ! i) \<and>
              (\<forall>j < length (verts (?objs ! i)).
                 vert_select (verts (objects' ! i) ! j) = vert_select (verts (?objs ! i) ! j) \<and>
                 vert_hide (verts (objects' ! i) ! j) = vert_hide (verts (?objs ! i) ! j) \<and>
                 shape (verts (objects' ! i) ! j) = shape (verts (?objs ! i) ! j) \<and>
                 co (verts (objects' ! i) ! j) =
                   (if vert_select (verts (?objs ! i) ! j) \<and> \<not> vert_hide (verts (?objs ! i) ! j)
                    then shape (verts (?objs ! i) ! j) ! active_shape_key_index (?objs ! i)
                    else co (verts (?objs ! i) ! j)))"
  proof (intro allI impI)
    fix i assume "i < length ?objs"
    from clear_object_frame [OF each [OF this]]
    show "shape_keys (objects' ! i) = shape_keys (?objs ! i) \<and>
              active_shape_key_index (objects' ! i) = active_shape_key_index (?objs ! i) \<and>
              length (verts (objects' ! i)) = length (verts (?objs ! i)) \<and>
              (total_vert_sel (?objs ! i) = 0 \<longrightarrow> objects' ! i = ?objs ! i) \<and>
              (\<forall>j < length (verts (?objs ! i)).
                 vert_select (verts (objects' ! i) ! j) = vert_select (verts (?objs ! i) ! j) \<and>
                 vert_hide (verts (objects' ! i) ! j) = vert_hide (verts (?objs ! i) ! j) \<and>
                 shape (verts (objects' ! i) ! j) = shape (verts (?objs ! i) ! j) \<and>
                 co (verts (objects' ! i) ! j) =
                   (if vert_select (verts (?objs ! i) ! j) \<and> \<not> vert_hide (verts (?objs ! i) ! j)
                    then shape (verts (?objs ! i) ! j) ! active_shape_key_index (?objs ! i)
                    else co (verts (?objs ! i) ! j)))" .
  qed
  show ?thesis
    by (rule exI [of _ objects'], intro conjI) (rule ex, rule len, rule main)
qed


theorem clear_execute_frame_witness:
  "clear_execute
     \<lparr>mesh_mode = ''EDIT_MESH'', objects_in_mode_unique_data =
      [\<lparr>shape_keys = Some \<lparr>use_relative = True, reference_key = ''Basis'',
                           key_blocks = [\<lparr>block_name = ''Basis'', relative_key = ''Basis''\<rparr>,
                                         \<lparr>block_name = ''Key 1'', relative_key = ''Basis''\<rparr>]\<rparr>,
        active_shape_key_index = 1,
        verts = [\<lparr>co = (1, 2, 3), vert_select = True, vert_hide = False, shape = [(0, 0, 0), (1, 1, 1)]\<rparr>,
                 \<lparr>co = (4, 5, 6), vert_select = False, vert_hide = False, shape = [(0, 0, 0), (2, 2, 2)]\<rparr>,
                 \<lparr>co = (7, 8, 9), vert_select = True, vert_hide = True, shape = [(0, 0, 0), (3, 3, 3)]\<rparr>]\<rparr>,
       \<lparr>shape_keys = None, active_shape_key_index = 0,
        verts = [\<lparr>co = (1, 2, 3), vert_select = False, vert_hide = False, shape = []\<rparr>]\<rparr>]\<rparr> =
   Inr (FINISHED,
     \<lparr>mesh_mode = ''EDIT_MESH'', objects_in_mode_unique_data =
      [\<lparr>shape_keys = Some \<lparr>use_relative = True, reference_key = ''Basis'',
                           key_blocks = [\<lparr>block_name = ''Basis'', relative_key = ''Basis''\<rparr>,
                                         \<lparr>block_name = ''Key 1'', relative_key = ''Basis''\<rparr>]\<rparr>,
        active_shape_key_index = 1,
        verts = [\<lparr>co = (1, 1, 1), vert_select = True, vert_hide = False, shape = [(0, 0, 0), (1, 1, 1)]\<rparr>,
                 \<lparr>co = (4, 5, 6), vert_select = False, vert_hide = False, shape = [(0, 0, 0), (2, 2, 2)]\<rparr>,
                 \<lparr>co = (7, 8, 9), vert_select = True, vert_hide = True, shape = [(0, 0, 0), (3, 3, 3)]\<rparr>]\<rparr>,
       \<lparr>shape_keys = None, active_shape_key_index = 0,
        verts = [\<lparr>co = (1, 2, 3), vert_select = False, vert_hide = False, shape = []\<rparr>]\<rparr>]\<rparr>)"
  (is "clear_execute ?context = _")
proof -
  have h: "\<forall>obj \<in> set (objects_in_mode_unique_data ?context).
      total_vert_sel obj \<noteq> 0 \<longrightarrow> active_shape_key_index obj < length (shape_layer_names obj)"
    by (simp add: total_vert_sel_def shape_layer_names_def)
  from clear_execute_frame [OF h]
  show ?thesis
    by (simp add: clear_execute_def clear_object_def total_vert_sel_def shape_layer_by_index_def
        shape_layer_names_def)
qed

subsection \<open>Copy To UVMap declines when a mesh is full\<close>




subsection \<open>The transfer script and the ADD mode of TransferPendingChanges\<close>










subsection \<open>Moving the active UV layer up and down\<close>

lemma swap_datum_eq:
  assumes "l1 \<noteq> l2" "l1 < length ls" "l2 < length ls"
  shows "swap_datum ls l1 l2 i =
           ls[l1 := (ls ! l1)\<lparr>layer_data := (layer_data (ls ! l1))[i := layer_data (ls ! l2) ! i]\<rparr>,
              l2 := (ls ! l2)\<lparr>layer_data := (layer_data (ls ! l2))[i := layer_data (ls ! l1) ! i]\<rparr>]"
proof -
  have d: "(layer_data (ls ! l1) ! i)\<lparr>uv := uv (layer_data (ls ! l2) ! i),
              pin_uv := pin_uv (layer_data (ls ! l2) ! i),
              select := select (layer_data (ls ! l2) ! i)\<rparr> = layer_data (ls ! l2) ! i"
    by simp
  have e: "(layer_data (ls ! l2) ! i)\<lparr>uv := uv (layer_data (ls ! l1) ! i),
              pin_uv := pin_uv (layer_data (ls ! l1) ! i),
              select := select (layer_data (ls ! l1) ! i)\<rparr> = layer_data (ls ! l1) ! i"
    by simp
  show ?thesis
    using assms by (simp add: swap_datum_def set_datum_def Let_def d e)
qed

lemma swap_data_spec:
  assumes "l1 \<noteq> l2" "l1 < length ls" "l2 < length ls"
    and "\<forall>i \<in> set idxs. i < length (layer_data (ls ! l2))"
    and "distinct idxs"
  shows "\<exists>ls'. swap_data ls l1 l2 idxs = Inr ls' \<and> length ls' = length ls \<and>
           (\<forall>l < length ls. layer_name (ls' ! l) = layer_name (ls ! l) \<and>
                             length (layer_data (ls' ! l)) = length (layer_data (ls ! l)) \<and>
                             (l \<noteq> l1 \<and> l \<noteq> l2 \<longrightarrow> ls' ! l = ls ! l)) \<and>
           (\<forall>i. layer_data (ls' ! l1) ! i =
                  (if i \<in> set idxs \<and> i < length (layer_data (ls ! l1))
                   then layer_data (ls ! l2) ! i else layer_data (ls ! l1) ! i)) \<and>
           (\<forall>i. layer_data (ls' ! l2) ! i =
                  (if i \<in> set idxs then layer_data (ls ! l1) ! i else layer_data (ls ! l2) ! i))"
  using assms
proof (induction idxs arbitrary: ls)
  case Nil
  then show ?case by simp
next
  case (Cons i rest)
  let ?ls1 = "swap_datum ls l1 l2 i"
  have eq: "?ls1 = ls[l1 := (ls ! l1)\<lparr>layer_data := (layer_data (ls ! l1))[i := layer_data (ls ! l2) ! i]\<rparr>,
              l2 := (ls ! l2)\<lparr>layer_data := (layer_data (ls ! l2))[i := layer_data (ls ! l1) ! i]\<rparr>]"
    using Cons.prems by (simp add: swap_datum_eq)
  have i2: "i < length (layer_data (ls ! l2))" using Cons.prems by simp
  have len1: "length ?ls1 = length ls" by (simp add: eq)
  have l1: "?ls1 ! l1 = (ls ! l1)\<lparr>layer_data := (layer_data (ls ! l1))[i := layer_data (ls ! l2) ! i]\<rparr>"
    using Cons.prems by (simp add: eq)
  have l2: "?ls1 ! l2 = (ls ! l2)\<lparr>layer_data := (layer_data (ls ! l2))[i := layer_data (ls ! l1) ! i]\<rparr>"
    using Cons.prems by (simp add: eq)
  have other: "\<And>l. l \<noteq> l1 \<Longrightarrow> l \<noteq> l2 \<Longrightarrow> ?ls1 ! l = ls ! l"
    by (simp add: eq)
  have "\<exists>ls'. swap_data ?ls1 l1 l2 rest = Inr ls' \<and> length ls' = length ?ls1 \<and>
           (\<forall>l < length ?ls1. layer_name (ls' ! l) = layer_name (?ls1 ! l) \<and>
                             length (layer_data (ls' ! l)) = length (layer_data (?ls1 ! l)) \<and>
                             (l \<noteq> l1 \<and> l \<noteq> l2 \<longrightarrow> ls' ! l = ?ls1 ! l)) \<and>
           (\<forall>j. layer_data (ls' ! l1) ! j =
                  (if j \<in> set rest \<and> j < length (layer_data (?ls1 ! l1))
                   then layer_data (?ls1 ! l2) ! j else layer_data (?ls1 ! l1) ! j)) \<and>
           (\<forall>j. layer_data (ls' ! l2) ! j =
                  (if j \<in> set rest then layer_data (?ls1 ! l1) ! j else layer_data (?ls1 ! l2) ! j))"
  proof (rule Cons.IH)
    show "l1 \<noteq> l2" using Cons.prems by simp
    show "l1 < length ?ls1" "l2 < length ?ls1" using Cons.prems len1 by simp_all
    show "\<forall>i \<in> set rest. i < length (layer_data (?ls1 ! l2))" using Cons.prems by (simp add: l2)
    show "distinct rest" using Cons.prems by simp
  qed
  then obtain ls' where
    H: "swap_data ?ls1 l1 l2 rest = Inr ls' \<and> length ls' = length ?ls1 \<and>
           (\<forall>l < length ?ls1. layer_name (ls' ! l) = layer_name (?ls1 ! l) \<and>
                             length (layer_data (ls' ! l)) = length (layer_data (?ls1 ! l)) \<and>
                             (l \<noteq> l1 \<and> l \<noteq> l2 \<longrightarrow> ls' ! l = ?ls1 ! l)) \<and>
           (\<forall>j. layer_data (ls' ! l1) ! j =
                  (if j \<in> set rest \<and> j < length (layer_data (?ls1 ! l1))
                   then layer_data (?ls1 ! l2) ! j else layer_data (?ls1 ! l1) ! j)) \<and>
           (\<forall>j. layer_data (ls' ! l2) ! j =
                  (if j \<in> set rest then layer_data (?ls1 ! l1) ! j else layer_data (?ls1 ! l2) ! j))" ..
  note r = H [THEN conjunct1] H [THEN conjunct2, THEN conjunct1]
  note d1 = H [THEN conjunct2, THEN conjunct2, THEN conjunct2, THEN conjunct1, rule_format]
  note d2 = H [THEN conjunct2, THEN conjunct2, THEN conjunct2, THEN conjunct2, rule_format]
  have run: "swap_data ls l1 l2 (i # rest) = Inr ls'" using r(1) i2 by simp
  have inot: "i \<notin> set rest" using Cons.prems by simp
  have frame: "\<forall>l < length ls. layer_name (ls' ! l) = layer_name (ls ! l) \<and>
                             length (layer_data (ls' ! l)) = length (layer_data (ls ! l)) \<and>
                             (l \<noteq> l1 \<and> l \<noteq> l2 \<longrightarrow> ls' ! l = ls ! l)"
  proof (intro allI impI)
    fix l assume l: "l < length ls"
    then have "l < length ?ls1" using len1 by simp
    then have f: "layer_name (ls' ! l) = layer_name (?ls1 ! l) \<and>
                             length (layer_data (ls' ! l)) = length (layer_data (?ls1 ! l)) \<and>
                             (l \<noteq> l1 \<and> l \<noteq> l2 \<longrightarrow> ls' ! l = ?ls1 ! l)"
      by (rule H [THEN conjunct2, THEN conjunct2, THEN conjunct1, rule_format])
    show "layer_name (ls' ! l) = layer_name (ls ! l) \<and>
                             length (layer_data (ls' ! l)) = length (layer_data (ls ! l)) \<and>
                             (l \<noteq> l1 \<and> l \<noteq> l2 \<longrightarrow> ls' ! l = ls ! l)"
    proof (cases "l = l1")
      case True
      then show ?thesis using f Cons.prems(1) by (simp add: l1)
    next
      case n1: False
      show ?thesis
      proof (cases "l = l2")
        case True
        then show ?thesis using f Cons.prems(1) by (simp add: l2)
      next
        case False
        then show ?thesis using f n1 by (simp add: other)
      qed
    qed
  qed
  have data1: "\<forall>j. layer_data (ls' ! l1) ! j =
                  (if j \<in> set (i # rest) \<and> j < length (layer_data (ls ! l1))
                   then layer_data (ls ! l2) ! j else layer_data (ls ! l1) ! j)"
  proof
    fix j
    show "layer_data (ls' ! l1) ! j =
                  (if j \<in> set (i # rest) \<and> j < length (layer_data (ls ! l1))
                   then layer_data (ls ! l2) ! j else layer_data (ls ! l1) ! j)"
    proof (cases "j = i")
      case True
      then show ?thesis using d1 [of j] inot by (simp add: l1 list_update_beyond)
    next
      case False
      then show ?thesis using d1 [of j] by (simp add: l1 l2)
    qed
  qed
  have data2: "\<forall>j. layer_data (ls' ! l2) ! j =
                  (if j \<in> set (i # rest) then layer_data (ls ! l1) ! j else layer_data (ls ! l2) ! j)"
  proof
    fix j
    show "layer_data (ls' ! l2) ! j =
                  (if j \<in> set (i # rest) then layer_data (ls ! l1) ! j else layer_data (ls ! l2) ! j)"
    proof (cases "j = i")
      case True
      then show ?thesis using d2 [of j] inot i2 by (simp add: l2)
    next
      case False
      then show ?thesis using d2 [of j] by (simp add: l1 l2)
    qed
  qed
  have "length ls' = length ls" using r(2) len1 by simp
  with run frame data1 data2 show ?case
    by (intro exI [of _ ls'] conjI)
qed


lemma unique_name_free: "name \<notin> set others \<Longrightarrow> unique_name others name = name"
  by (simp add: unique_name_def)

lemma set_others:
  "set (take i ls @ drop (Suc i) ls) = {ls ! j |j. j < length ls \<and> j \<noteq> i}"
proof (intro set_eqI iffI)
  fix x assume "x \<in> set (take i ls @ drop (Suc i) ls)"
  then consider "x \<in> set (take i ls)" | "x \<in> set (drop (Suc i) ls)" by auto
  then show "x \<in> {ls ! j |j. j < length ls \<and> j \<noteq> i}"
  proof cases
    case 1
    then obtain j where "j < length (take i ls)" "take i ls ! j = x"
      by (auto simp: in_set_conv_nth)
    then show ?thesis by (intro CollectI exI [of _ j]) auto
  next
    case 2
    then obtain j where "j < length (drop (Suc i) ls)" "drop (Suc i) ls ! j = x"
      by (auto simp: in_set_conv_nth)
    then show ?thesis by (intro CollectI exI [of _ "Suc i + j"]) auto
  qed
next
  fix x assume "x \<in> {ls ! j |j. j < length ls \<and> j \<noteq> i}"
  then obtain j where j: "j < length ls" "j \<noteq> i" "x = ls ! j" by auto
  show "x \<in> set (take i ls @ drop (Suc i) ls)"
  proof (cases "j < i")
    case True
    then have "take i ls ! j = x" using j by simp
    moreover have "j < length (take i ls)" using True j by simp
    ultimately have "x \<in> set (take i ls)" by (metis nth_mem)
    then show ?thesis by simp
  next
    case False
    then have ji: "Suc i \<le> j" using j by simp
    then have "drop (Suc i) ls ! (j - Suc i) = x" using j by simp
    moreover have "j - Suc i < length (drop (Suc i) ls)" using ji j by simp
    ultimately have "x \<in> set (drop (Suc i) ls)" by (metis nth_mem)
    then show ?thesis by simp
  qed
qed

lemma set_layer_name_free:
  assumes "i < length ls" "\<And>j. j < length ls \<Longrightarrow> j \<noteq> i \<Longrightarrow> layer_name (ls ! j) \<noteq> name"
  shows "set_layer_name ls i name = ls[i := (ls ! i)\<lparr>layer_name := name\<rparr>]"
proof -
  have "name \<notin> set (map layer_name (take i ls @ drop (Suc i) ls))"
  proof
    assume "name \<in> set (map layer_name (take i ls @ drop (Suc i) ls))"
    then obtain x where "x \<in> set (take i ls @ drop (Suc i) ls)" "layer_name x = name"
      by auto
    then obtain j where "j < length ls" "j \<noteq> i" "layer_name (ls ! j) = name"
      unfolding set_others by auto
    then show False using assms(2) by blast
  qed
  then show ?thesis by (simp add: set_layer_name_def unique_name_free)
qed


lemma py_index_nat: "l < n \<Longrightarrow> py_index n (int l) = Some l"
  by (simp add: py_index_def)

lemma swap_uv_layers_exchange:
  assumes ne: "l1 \<noteq> l2" and b1: "l1 < length ls" and b2: "l2 < length ls"
    and dist: "distinct (map layer_name ls)"
    and nt: "''temp'' \<notin> set (map layer_name ls)"
    and len: "length (layer_data (ls ! l1)) = length (layer_data (ls ! l2))"
  shows "swap_uv_layers ls (int l1) (int l2) = Inr (ls[l1 := ls ! l2, l2 := ls ! l1])"
proof -
  let ?A = "layer_name (ls ! l1)" and ?B = "layer_name (ls ! l2)"
  have nd: "layer_name (ls ! j) \<noteq> layer_name (ls ! k)"
    if "j < length ls" "k < length ls" "j \<noteq> k" for j k
    using dist that by (metis distinct_conv_nth length_map nth_map)
  have tmp: "layer_name (ls ! j) \<noteq> ''temp''" if "j < length ls" for j
    using nt that by (metis length_map nth_map nth_mem)
  let ?ls1 = "ls[l1 := (ls ! l1)\<lparr>layer_name := ''temp''\<rparr>]"
  let ?ls2 = "?ls1[l2 := (?ls1 ! l2)\<lparr>layer_name := ?A\<rparr>]"
  let ?ls3 = "?ls2[l1 := (?ls2 ! l1)\<lparr>layer_name := ?B\<rparr>]"
  have s1: "set_layer_name ls l1 ''temp'' = ?ls1"
    by (rule set_layer_name_free) (use b1 tmp in auto)
  have s2: "set_layer_name ?ls1 l2 ?A = ?ls2"
  proof (rule set_layer_name_free)
    show "l2 < length ?ls1" using b2 by simp
    fix j assume j: "j < length ?ls1" "j \<noteq> l2"
    show "layer_name (?ls1 ! j) \<noteq> ?A"
    proof (cases "j = l1")
      case True
      then show ?thesis using b1 tmp [of l1] by auto
    next
      case False
      then show ?thesis using j nd [of j l1] b1 by simp
    qed
  qed
  have s3: "set_layer_name ?ls2 l1 ?B = ?ls3"
  proof (rule set_layer_name_free)
    show "l1 < length ?ls2" using b1 by simp
    fix j assume j: "j < length ?ls2" "j \<noteq> l1"
    show "layer_name (?ls2 ! j) \<noteq> ?B"
    proof (cases "j = l2")
      case True
      then show ?thesis using b1 b2 ne nd [of l1 l2] by simp
    next
      case False
      then show ?thesis using j nd [of j l2] b2 by simp
    qed
  qed
  have n1: "?ls3 ! l1 = (ls ! l1)\<lparr>layer_name := ?B\<rparr>" using b1 b2 ne by simp
  have n2: "?ls3 ! l2 = (ls ! l2)\<lparr>layer_name := ?A\<rparr>" using b1 b2 ne by simp
  have no: "?ls3 ! l = ls ! l" if "l \<noteq> l1" "l \<noteq> l2" for l using that by simp
  have len3: "length ?ls3 = length ls" by simp
  have run: "swap_uv_layers ls (int l1) (int l2) =
               swap_data ?ls3 l1 l2 [0..<length (layer_data (ls ! l1))]"
    using b1 b2 s1 s2 s3 n1
    by (simp only: swap_uv_layers_def py_index_nat option.case Let_def) simp
  have "\<exists>ls'. swap_data ?ls3 l1 l2 [0..<length (layer_data (ls ! l1))] = Inr ls' \<and> length ls' = length ?ls3 \<and>
           (\<forall>l < length ?ls3. layer_name (ls' ! l) = layer_name (?ls3 ! l) \<and>
                             length (layer_data (ls' ! l)) = length (layer_data (?ls3 ! l)) \<and>
                             (l \<noteq> l1 \<and> l \<noteq> l2 \<longrightarrow> ls' ! l = ?ls3 ! l)) \<and>
           (\<forall>i. layer_data (ls' ! l1) ! i =
                  (if i \<in> set [0..<length (layer_data (ls ! l1))] \<and> i < length (layer_data (?ls3 ! l1))
                   then layer_data (?ls3 ! l2) ! i else layer_data (?ls3 ! l1) ! i)) \<and>
           (\<forall>i. layer_data (ls' ! l2) ! i =
                  (if i \<in> set [0..<length (layer_data (ls ! l1))]
                   then layer_data (?ls3 ! l1) ! i else layer_data (?ls3 ! l2) ! i))"
  proof (rule swap_data_spec)
    show "l1 \<noteq> l2" by (rule ne)
    show "l1 < length ?ls3" "l2 < length ?ls3" using b1 b2 by simp_all
    show "\<forall>i \<in> set [0..<length (layer_data (ls ! l1))]. i < length (layer_data (?ls3 ! l2))"
      unfolding n2 using len by simp
    show "distinct [0..<length (layer_data (ls ! l1))]" by simp
  qed
  then obtain ls' where
    H: "swap_data ?ls3 l1 l2 [0..<length (layer_data (ls ! l1))] = Inr ls' \<and> length ls' = length ?ls3 \<and>
           (\<forall>l < length ?ls3. layer_name (ls' ! l) = layer_name (?ls3 ! l) \<and>
                             length (layer_data (ls' ! l)) = length (layer_data (?ls3 ! l)) \<and>
                             (l \<noteq> l1 \<and> l \<noteq> l2 \<longrightarrow> ls' ! l = ?ls3 ! l)) \<and>
           (\<forall>i. layer_data (ls' ! l1) ! i =
                  (if i \<in> set [0..<length (layer_data (ls ! l1))] \<and> i < length (layer_data (?ls3 ! l1))
                   then layer_data (?ls3 ! l2) ! i else layer_data (?ls3 ! l1) ! i)) \<and>
           (\<forall>i. layer_data (ls' ! l2) ! i =
                  (if i \<in> set [0..<length (layer_data (ls ! l1))]
                   then layer_data (?ls3 ! l1) ! i else layer_data (?ls3 ! l2) ! i))" ..
  note r = H [THEN conjunct1]
  note ln = H [THEN conjunct2, THEN conjunct1]
  note fr = H [THEN conjunct2, THEN conjunct2, THEN conjunct1, rule_format]
  note d1 = H [THEN conjunct2, THEN conjunct2, THEN conjunct2, THEN conjunct1, rule_format]
  note d2 = H [THEN conjunct2, THEN conjunct2, THEN conjunct2, THEN conjunct2, rule_format]
  have lenl: "length ls' = length ls" using ln by simp
  have f1: "layer_name (ls' ! l1) = ?B" "length (layer_data (ls' ! l1)) = length (layer_data (ls ! l1))"
    using fr [of l1] b1 unfolding n1 by simp_all
  have f2: "layer_name (ls' ! l2) = ?A" "length (layer_data (ls' ! l2)) = length (layer_data (ls ! l2))"
    using fr [of l2] b2 unfolding n2 by simp_all
  have data1: "layer_data (ls' ! l1) = layer_data (ls ! l2)"
  proof (rule nth_equalityI)
    show "length (layer_data (ls' ! l1)) = length (layer_data (ls ! l2))" using f1(2) len by simp
    fix i assume "i < length (layer_data (ls' ! l1))"
    then have "i < length (layer_data (ls ! l1))" using f1(2) by simp
    then show "layer_data (ls' ! l1) ! i = layer_data (ls ! l2) ! i"
      using d1 [of i] unfolding n1 n2 by simp
  qed
  have data2: "layer_data (ls' ! l2) = layer_data (ls ! l1)"
  proof (rule nth_equalityI)
    show "length (layer_data (ls' ! l2)) = length (layer_data (ls ! l1))" using f2(2) len by simp
    fix i assume "i < length (layer_data (ls' ! l2))"
    then have "i < length (layer_data (ls ! l1))" using f2(2) len by simp
    then show "layer_data (ls' ! l2) ! i = layer_data (ls ! l1) ! i"
      using d2 [of i] unfolding n1 n2 by simp
  qed
  have e1: "ls' ! l1 = ls ! l2" using f1(1) data1 by (simp add: uv_layer.equality)
  have e2: "ls' ! l2 = ls ! l1" using f2(1) data2 by (simp add: uv_layer.equality)
  have "ls' = ls[l1 := ls ! l2, l2 := ls ! l1]"
  proof (rule nth_equalityI)
    show "length ls' = length (ls[l1 := ls ! l2, l2 := ls ! l1])" using lenl by simp
    fix l assume l: "l < length ls'"
    show "ls' ! l = ls[l1 := ls ! l2, l2 := ls ! l1] ! l"
    proof (cases "l = l1")
      case True
      then show ?thesis using e1 b1 ne by simp
    next
      case o1: False
      show ?thesis
      proof (cases "l = l2")
        case True
        then show ?thesis using e2 b2 by simp
      next
        case False
        have "ls' ! l = ?ls3 ! l" using fr [of l] l lenl o1 False by simp
        then show ?thesis using o1 False no [of l] by simp
      qed
    qed
  qed
  then show ?thesis using run r by simp
qed


lemma swap_twice: "l1 < length ls \<Longrightarrow> l2 < length ls \<Longrightarrow> l1 \<noteq> l2 \<Longrightarrow>
   (ls[l1 := ls ! l2, l2 := ls ! l1])[l1 := ls[l1 := ls ! l2, l2 := ls ! l1] ! l2,
                                      l2 := ls[l1 := ls ! l2, l2 := ls ! l1] ! l1] = ls"
  by (rule nth_equalityI) (auto simp: nth_list_update)

text \<open>
  When the layer names are distinct, none of them is \<open>temp\<close> and every layer has one datum
  for each loop, \<open>swap_uv_layers\<close> exchanges the two layers, and moving the active layer up
  and then down gives the mesh back: names, data and active index.
\<close>

lemma move_up_down_restores:
  assumes pos: "0 < active_index me"
    and lt: "active_index me < int (length (uv_layers me))"
    and dist: "distinct (map layer_name (uv_layers me))"
    and nt: "''temp'' \<notin> set (map layer_name (uv_layers me))"
    and lens: "\<forall>l \<in> set (uv_layers me). length (layer_data l) = loops me"
  shows "\<exists>me'. move_active_uv_layer_up me = Inr me' \<and> move_active_uv_layer_down me' = Inr me"
proof -
  let ?ls = "uv_layers me"
  define i where "i = nat (active_index me)"
  have i: "0 < i" "i < length ?ls" "active_index me = int i" "active_index me - 1 = int (i - 1)"
    using pos lt by (simp_all add: i_def)
  let ?l1 = "i - 1"
  have b: "?l1 < length ?ls" "?l1 \<noteq> i" using i by simp_all
  have len: "length (layer_data (?ls ! ?l1)) = length (layer_data (?ls ! i))"
    using lens b(1) i(2) by (metis nth_mem)
  let ?ls' = "?ls[?l1 := ?ls ! i, i := ?ls ! ?l1]"
  have up: "swap_uv_layers ?ls (int ?l1) (int i) = Inr ?ls'"
    by (rule swap_uv_layers_exchange [OF b(2) b(1) i(2) dist nt len])
  have idx: "int i = active_index me" "int (i - 1) = active_index me - 1"
    using pos lt by (simp_all add: i_def)
  let ?me' = "me\<lparr>uv_layers := ?ls', active_index := active_index me - 1\<rparr>"
  have r1: "move_active_uv_layer_up me = Inr ?me'"
    unfolding move_active_uv_layer_up_def Let_def
    by (simp only: pos if_True up [unfolded idx] sum.case)
  have names': "map layer_name ?ls' = (map layer_name ?ls)[?l1 := map layer_name ?ls ! i, i := map layer_name ?ls ! ?l1]"
    using b(1) i(2) by (simp add: map_update)
  have "distinct ((map layer_name ?ls)[?l1 := map layer_name ?ls ! i, i := map layer_name ?ls ! ?l1]) =
          distinct (map layer_name ?ls)"
    by (rule distinct_swap) (use b(1) i(2) in simp_all)
  with dist have dist': "distinct (map layer_name ?ls')"
    unfolding names' by blast
  have "set ((map layer_name ?ls)[?l1 := map layer_name ?ls ! i, i := map layer_name ?ls ! ?l1]) =
          set (map layer_name ?ls)"
    by (rule set_swap) (use b(1) i(2) in simp_all)
  with nt have nt': "''temp'' \<notin> set (map layer_name ?ls')"
    unfolding names' by blast
  have len': "length (layer_data (?ls' ! ?l1)) = length (layer_data (?ls' ! i))"
    using len b i(2) by simp
  have "swap_uv_layers ?ls' (int ?l1) (int i) = Inr (?ls'[?l1 := ?ls' ! i, i := ?ls' ! ?l1])"
    by (rule swap_uv_layers_exchange [OF b(2) _ _ dist' nt' len']) (use b i in simp_all)
  then have down: "swap_uv_layers ?ls' (int ?l1) (int i) = Inr ?ls"
    using swap_twice [OF b(1) i(2) b(2)] by simp
  have sel: "uv_layers ?me' = ?ls'" "active_index ?me' = active_index me - 1"
    by simp_all
  have cond: "active_index me - 1 < int (length ?ls') - 1" using lt by simp
  have plus1: "active_index me - 1 + 1 = active_index me" by simp
  have fin: "?me'\<lparr>uv_layers := ?ls, active_index := active_index me\<rparr> = me" by simp
  have r2: "move_active_uv_layer_down ?me' = Inr me"
    unfolding move_active_uv_layer_down_def Let_def sel
    by (simp only: cond if_True plus1 down [unfolded idx] sum.case fin)
  from r1 r2 show ?thesis by blast
qed

text \<open>
  C9. Moving the active UV layer up and then down should restore every layer's name and
  data and the active index. It does not when the layer above the active one is called
  \<open>temp\<close>: the first swap gives the other layer the name \<open>temp\<close> while the first layer
  still has it, so the host renames it to \<open>temp.001\<close>, and after the second swap the
  layer that was \<open>temp\<close> is \<open>temp.001\<close>. The data and the active index are restored,
  the names are not.
\<close>

theorem move_up_down_temp_layer_name:
  "move_active_uv_layer_up \<lparr>mesh_name = ''Cube'',
      uv_layers = [\<lparr>layer_name = ''temp'', layer_data = [\<lparr>uv = (0, 0), pin_uv = False, select = False\<rparr>]\<rparr>,
                   \<lparr>layer_name = ''B'', layer_data = [\<lparr>uv = (1, 1), pin_uv = True, select = True\<rparr>]\<rparr>],
      active_index = 1, faces = [], loops = 1\<rparr> = Inr \<lparr>mesh_name = ''Cube'',
      uv_layers = [\<lparr>layer_name = ''B'', layer_data = [\<lparr>uv = (1, 1), pin_uv = True, select = True\<rparr>]\<rparr>,
                   \<lparr>layer_name = ''temp.001'', layer_data = [\<lparr>uv = (0, 0), pin_uv = False, select = False\<rparr>]\<rparr>],
      active_index = 0, faces = [], loops = 1\<rparr> \<and>
   move_active_uv_layer_down \<lparr>mesh_name = ''Cube'',
      uv_layers = [\<lparr>layer_name = ''B'', layer_data = [\<lparr>uv = (1, 1), pin_uv = True, select = True\<rparr>]\<rparr>,
                   \<lparr>layer_name = ''temp.001'', layer_data = [\<lparr>uv = (0, 0), pin_uv = False, select = False\<rparr>]\<rparr>],
      active_index = 0, faces = [], loops = 1\<rparr> = Inr \<lparr>mesh_name = ''Cube'',
      uv_layers = [\<lparr>layer_name = ''temp.001'', layer_data = [\<lparr>uv = (0, 0), pin_uv = False, select = False\<rparr>]\<rparr>,
                   \<lparr>layer_name = ''B'', layer_data = [\<lparr>uv = (1, 1), pin_uv = True, select = True\<rparr>]\<rparr>],
      active_index = 1, faces = [], loops = 1\<rparr> \<and>
   map layer_name (uv_layers \<lparr>mesh_name = ''Cube'',
      uv_layers = [\<lparr>layer_name = ''temp.001'', layer_data = [\<lparr>uv = (0, 0), pin_uv = False, select = False\<rparr>]\<rparr>,
                   \<lparr>layer_name = ''B'', layer_data = [\<lparr>uv = (1, 1), pin_uv = True, select = True\<rparr>]\<rparr>],
      active_index = 1, faces = [], loops = 1\<rparr>) \<noteq> map layer_name (uv_layers \<lparr>mesh_name = ''Cube'',
      uv_layers = [\<lparr>layer_name = ''temp'', layer_data = [\<lparr>uv = (0, 0), pin_uv = False, select = False\<rparr>]\<rparr>,
                   \<lparr>layer_name = ''B'', layer_data = [\<lparr>uv = (1, 1), pin_uv = True, select = True\<rparr>]\<rparr>],
      active_index = 1, faces = [], loops = 1\<rparr>)"
  by (simp add: move_active_uv_layer_up_def move_active_uv_layer_down_def swap_uv_layers_def py_index_def
      set_layer_name_def unique_name_def name_suffix_def swap_datum_def set_datum_def Let_def upt_rec)

subsection \<open>AverageShapeKeyMovement.execute\<close>

lemma for_each_map: "(\<And>x. x \<in> set xs \<Longrightarrow> f x = Inr (g x)) \<Longrightarrow> for_each f xs = Inr (map g xs)"
  by (induction xs) auto

lemma set_co_length: "length (set_co objs ij v) = length objs"
  by (simp add: set_co_def Let_def)

lemma set_co_nth:
  assumes "fst ij < length objs"
  shows "set_co objs ij v ! i =
           (if i = fst ij
            then (objs ! i)\<lparr>verts := (verts (objs ! i))[snd ij := (verts (objs ! i) ! snd ij)\<lparr>co := v\<rparr>]\<rparr>
            else objs ! i)"
  using assms by (simp add: set_co_def Let_def nth_list_update)

lemma set_co_out: "\<not> fst ij < length objs \<Longrightarrow> set_co objs ij v = objs"
  by (simp add: set_co_def Let_def list_update_beyond)

lemma set_co_frame:
  assumes "i < length objs"
  shows "shape_keys (set_co objs ij v ! i) = shape_keys (objs ! i) \<and>
         active_shape_key_index (set_co objs ij v ! i) = active_shape_key_index (objs ! i) \<and>
         length (verts (set_co objs ij v ! i)) = length (verts (objs ! i))"
  using assms by (cases "fst ij < length objs") (auto simp: set_co_nth set_co_out)

lemma set_co_vert:
  assumes "i < length objs" "j < length (verts (objs ! i))"
  shows "verts (set_co objs ij v ! i) ! j =
           (if (i, j) = ij then (verts (objs ! i) ! j)\<lparr>co := v\<rparr> else verts (objs ! i) ! j)"
proof (cases "fst ij < length objs")
  case True
  then show ?thesis using assms by (cases ij) (auto simp: set_co_nth nth_list_update)
next
  case False
  then have "set_co objs ij v = objs" by (rule set_co_out)
  moreover have "(i, j) \<noteq> ij" using False assms by auto
  ultimately show ?thesis by simp
qed


lemma fold_set_co_frame:
  "i < length objs \<Longrightarrow>
   length (fold (\<lambda>(bv, relative_co, movement) objs. set_co objs bv (G relative_co movement)) es objs) = length objs \<and>
   shape_keys (fold (\<lambda>(bv, relative_co, movement) objs. set_co objs bv (G relative_co movement)) es objs ! i) =
     shape_keys (objs ! i) \<and>
   active_shape_key_index (fold (\<lambda>(bv, relative_co, movement) objs. set_co objs bv (G relative_co movement)) es objs ! i) =
     active_shape_key_index (objs ! i) \<and>
   length (verts (fold (\<lambda>(bv, relative_co, movement) objs. set_co objs bv (G relative_co movement)) es objs ! i)) =
     length (verts (objs ! i))"
proof (induction es arbitrary: objs)
  case Nil
  then show ?case by simp
next
  case (Cons e es)
  obtain bv rc mv where e: "e = (bv, rc, mv)" by (cases e) auto
  have "i < length (set_co objs bv (G rc mv))" using Cons.prems by (simp add: set_co_length)
  from Cons.IH [OF this] show ?case
    using Cons.prems by (simp add: e set_co_length set_co_frame)
qed

lemma fold_set_co_vert:
  "i < length objs \<Longrightarrow> j < length (verts (objs ! i)) \<Longrightarrow>
   verts (fold (\<lambda>(bv, relative_co, movement) objs. set_co objs bv (G relative_co movement)) es objs ! i) ! j =
     (verts (objs ! i) ! j)
       \<lparr>co := fold (\<lambda>(bv, relative_co, movement) c. if bv = (i, j) then G relative_co movement else c) es
                 (co (verts (objs ! i) ! j))\<rparr>"
proof (induction es arbitrary: objs)
  case Nil
  then show ?case by simp
next
  case (Cons e es)
  obtain bv rc mv where e: "e = (bv, rc, mv)" by (cases e) auto
  have 1: "i < length (set_co objs bv (G rc mv))" using Cons.prems by (simp add: set_co_length)
  have 2: "j < length (verts (set_co objs bv (G rc mv) ! i))"
    using Cons.prems by (simp add: set_co_frame)
  from Cons.IH [OF 1 2] show ?case
    using Cons.prems by (auto simp add: e set_co_vert)
qed

lemma fold_key_value:
  "(\<And>relative_co movement. (key, relative_co, movement) \<in> set es \<Longrightarrow> G relative_co movement = v) \<Longrightarrow>
   fold (\<lambda>(bv, relative_co, movement) c. if bv = key then G relative_co movement else c) es c0 =
     (if \<exists>relative_co movement. (key, relative_co, movement) \<in> set es then v else c0)"
proof (induction es arbitrary: c0)
  case Nil
  then show ?case by simp
next
  case (Cons e es)
  obtain bv rc mv where e: "e = (bv, rc, mv)" by (cases e) auto
  have IH: "fold (\<lambda>(bv, relative_co, movement) c. if bv = key then G relative_co movement else c) es c1 =
     (if \<exists>relative_co movement. (key, relative_co, movement) \<in> set es then v else c1)" for c1
    using Cons.IH Cons.prems by simp
  show ?case
  proof (cases "bv = key")
    case True
    then have "G rc mv = v" using Cons.prems [of rc mv] e by simp
    then show ?thesis using True by (auto simp: e IH)
  next
    case False
    then show ?thesis by (auto simp: e IH)
  qed
qed

lemma fold_vadd_sum:
  "fold (\<lambda>(bv, relative_co, movement) s. vadd s movement) es acc =
     vadd acc (sum_list (map (\<lambda>(bv, relative_co, x, y, z). x) es),
               sum_list (map (\<lambda>(bv, relative_co, x, y, z). y) es),
               sum_list (map (\<lambda>(bv, relative_co, x, y, z). z) es))"
proof (induction es arbitrary: acc)
  case Nil
  then show ?case by (cases acc) simp
next
  case (Cons e es)
  obtain bv rc x y z where e: "e = (bv, rc, x, y, z)" by (cases e) auto
  show ?case by (cases acc) (simp add: e Cons.IH)
qed

lemma zip_upt_nth: "zip [0..<length xs] xs = map (\<lambda>i. (i, xs ! i)) [0..<length xs]"
  by (rule nth_equalityI) simp_all

lemma map_snd_filter: "map snd (filter (\<lambda>p. P (snd p)) zs) = filter P (map snd zs)"
  by (induction zs) auto

lemma map_snd_filter_zip:
  "map (\<lambda>(j, x). f x) (filter (\<lambda>(j, x). P x) (zip [0..<length xs] xs)) = map f (filter P xs)"
proof -
  have "map snd (filter (\<lambda>p. P (snd p)) (zip [0..<length xs] xs)) = filter P xs"
    by (simp add: map_snd_filter)
  then have "map f (map snd (filter (\<lambda>p. P (snd p)) (zip [0..<length xs] xs))) = map f (filter P xs)"
    by simp
  then show ?thesis by (simp add: comp_def case_prod_unfold)
qed

lemma entries_mem:
  "((i', j), rc, mv) \<in> set (map (\<lambda>(j, bv). ((i, j), f bv, g bv))
                               (filter (\<lambda>(j, bv). P bv) (zip [0..<length vs] vs))) \<longleftrightarrow>
     i' = i \<and> j < length vs \<and> P (vs ! j) \<and> rc = f (vs ! j) \<and> mv = g (vs ! j)"
  by (auto simp: zip_upt_nth filter_map comp_def)

lemma average_collect_entries:
  assumes "object_has_relative_shape_keys_and_active_shape_is_not_basis_like obj \<and> total_vert_sel obj \<noteq> 0
             \<longrightarrow> relative_shape_layer obj = Inr r"
  shows "average_collect (i, obj) =
           Inr (if object_has_relative_shape_keys_and_active_shape_is_not_basis_like obj \<and> total_vert_sel obj \<noteq> 0
                then map (\<lambda>(j, bv). ((i, j), shape bv ! r, vsub (co bv) (shape bv ! r)))
                       (filter (\<lambda>(j, bv). vert_select bv \<and> \<not> vert_hide bv)
                          (zip [0..<length (verts obj)] (verts obj)))
                else [])"
proof (cases "active_shape_key obj")
  case None
  then show ?thesis
    by (simp add: average_collect_def object_has_relative_shape_keys_and_active_shape_is_not_basis_like_def)
next
  case (Some a)
  then obtain k where k: "shape_keys obj = Some k"
    by (cases "shape_keys obj") (auto simp: active_shape_key_def)
  show ?thesis
    using Some k assms
    by (auto simp add: average_collect_def object_has_relative_shape_keys_and_active_shape_is_not_basis_like_def)
qed


lemma index_of_first:
  "i < length xs \<Longrightarrow> xs ! i = x \<Longrightarrow> (\<forall>j < i. xs ! j \<noteq> x) \<Longrightarrow> index_of xs x = Some i"
proof (induction xs arbitrary: i)
  case Nil
  then show ?case by simp
next
  case (Cons y ys)
  show ?case
  proof (cases i)
    case 0
    then show ?thesis using Cons.prems by simp
  next
    case (Suc n)
    have "y \<noteq> x" using Cons.prems(3) Suc by auto
    moreover have "index_of ys x = Some n"
    proof (rule Cons.IH)
      show "n < length ys" using Cons.prems(1) Suc by simp
      show "ys ! n = x" using Cons.prems(2) Suc by simp
      show "\<forall>j < n. ys ! j \<noteq> x" using Cons.prems(3) Suc by auto
    qed
    ultimately show ?thesis using Suc by simp
  qed
qed

text \<open>
  C6. The active key of a mesh is the key block at its active index. A mesh is eligible when
  it has shape keys with an active key, the keys are relative, the active key is not relative
  to itself and is not the reference key, and the mesh has a selected vertex. For an eligible
  mesh \<open>i\<close>, \<open>r i\<close> is the shape layer of the relative key of its active key: the
  position of the first key block that has the name of that relative key (the host keeps the
  relative key among the key blocks of the mesh). The movement of a vertex is its coordinate
  minus its coordinate on the layer \<open>r i\<close>; the average is the sum of the movements of the
  selected, non-hidden vertices of all eligible meshes divided by their number. With
  \<open>mix = 1\<close> the coordinate of each such vertex becomes its coordinate on the layer
  \<open>r i\<close> plus the average; with \<open>mix = 0\<close> nothing changes; with another \<open>mix\<close> it
  becomes the coordinate on the layer \<open>r i\<close> plus the movement interpolated toward the
  average by \<open>mix\<close>. Nothing else changes.
\<close>

theorem average_execute_movement:
  fixes ctxt :: mesh_context and mix :: real and r :: "nat \<Rightarrow> nat"
  defines "objs \<equiv> objects_in_mode_unique_data ctxt"
  defines "active \<equiv> \<lambda>obj k. key_blocks k ! active_shape_key_index obj"
  defines "eligible \<equiv> \<lambda>obj.
             case shape_keys obj of
               None \<Rightarrow> False
             | Some k \<Rightarrow> active_shape_key_index obj < length (key_blocks k) \<and> use_relative k \<and>
                         relative_key (active obj k) \<noteq> block_name (active obj k) \<and>
                         block_name (active obj k) \<noteq> reference_key k \<and>
                         (\<exists>v \<in> set (verts obj). vert_select v)"
  defines "moves \<equiv> concat (map (\<lambda>i. if eligible (objs ! i)
                                       then map (\<lambda>bv. vsub (co bv) (shape bv ! r i))
                                              (filter (\<lambda>bv. vert_select bv \<and> \<not> vert_hide bv) (verts (objs ! i)))
                                       else [])
                                 [0..<length objs])"
  defines "average \<equiv> (sum_list (map (\<lambda>(x, y, z). x) moves) / real (length moves),
                      sum_list (map (\<lambda>(x, y, z). y) moves) / real (length moves),
                      sum_list (map (\<lambda>(x, y, z). z) moves) / real (length moves))"
  assumes pin: "\<forall>i < length objs. eligible (objs ! i) \<longrightarrow>
                  (case shape_keys (objs ! i) of
                     None \<Rightarrow> False
                   | Some k \<Rightarrow>
                       r i < length (key_blocks k) \<and>
                       block_name (key_blocks k ! r i) = relative_key (active (objs ! i) k) \<and>
                       (\<forall>j < r i. block_name (key_blocks k ! j) \<noteq> relative_key (active (objs ! i) k)))"
  shows "\<exists>objs'.
           average_execute mix ctxt = Inr (FINISHED, ctxt\<lparr>objects_in_mode_unique_data := objs'\<rparr>) \<and>
           length objs' = length objs \<and>
           (\<forall>i < length objs.
              shape_keys (objs' ! i) = shape_keys (objs ! i) \<and>
              active_shape_key_index (objs' ! i) = active_shape_key_index (objs ! i) \<and>
              length (verts (objs' ! i)) = length (verts (objs ! i)) \<and>
              (\<forall>j < length (verts (objs ! i)).
                 verts (objs' ! i) ! j =
                   (verts (objs ! i) ! j)
                     \<lparr>co := (if mix \<noteq> 0 \<and> eligible (objs ! i) \<and>
                                vert_select (verts (objs ! i) ! j) \<and> \<not> vert_hide (verts (objs ! i) ! j)
                             then vadd (shape (verts (objs ! i) ! j) ! r i)
                                    (if mix = 1 then average
                                     else lerp (vsub (co (verts (objs ! i) ! j)) (shape (verts (objs ! i) ! j) ! r i))
                                            average mix)
                             else co (verts (objs ! i) ! j))\<rparr>))"
proof -
  have eligible_alt:
    "eligible obj = (object_has_relative_shape_keys_and_active_shape_is_not_basis_like obj \<and>
                     total_vert_sel obj \<noteq> 0)" for obj
    by (auto simp add: eligible_def active_def
        object_has_relative_shape_keys_and_active_shape_is_not_basis_like_def active_shape_key_def
        total_vert_sel_def filter_empty_conv split: option.splits)
  have rel: "\<forall>i < length objs. eligible (objs ! i) \<longrightarrow> relative_shape_layer (objs ! i) = Inr (r i)"
  proof (intro allI impI)
    fix i assume i: "i < length objs" and e: "eligible (objs ! i)"
    from e obtain k where k: "shape_keys (objs ! i) = Some k"
      and act: "active_shape_key_index (objs ! i) < length (key_blocks k)"
      by (auto simp add: eligible_def split: option.splits)
    from pin i e k have r: "r i < length (key_blocks k)"
      "block_name (key_blocks k ! r i) = relative_key (active (objs ! i) k)"
      "\<forall>j < r i. block_name (key_blocks k ! j) \<noteq> relative_key (active (objs ! i) k)"
      by auto
    have "index_of (map block_name (key_blocks k)) (relative_key (active (objs ! i) k)) = Some (r i)"
    proof (rule index_of_first)
      show "r i < length (map block_name (key_blocks k))" using r(1) by simp
      show "map block_name (key_blocks k) ! r i = relative_key (active (objs ! i) k)"
        using r(1,2) by simp
      show "\<forall>j < r i. map block_name (key_blocks k) ! j \<noteq> relative_key (active (objs ! i) k)"
        using r(1,3) by simp
    qed
    then show "relative_shape_layer (objs ! i) = Inr (r i)"
      using k act
      by (simp add: relative_shape_layer_def active_shape_key_def shape_layer_by_name_def
          shape_layer_names_def active_def)
  qed
  show ?thesis
  proof (cases "mix = 0")
    case True
    then have "average_execute mix ctxt = Inr (FINISHED, ctxt\<lparr>objects_in_mode_unique_data := objs\<rparr>)"
      by (simp add: average_execute_def objs_def)
    then show ?thesis using True by (intro exI [of _ objs]) simp
  next
    case False
    let ?sel = "\<lambda>bv. vert_select bv \<and> \<not> vert_hide bv"
    define ent where "ent = (\<lambda>(i, obj). if eligible obj
         then map (\<lambda>(j, bv). ((i, j), shape bv ! r i, vsub (co bv) (shape bv ! r i)))
                (filter (\<lambda>(j, bv). vert_select bv \<and> \<not> vert_hide bv) (zip [0..<length (verts obj)] (verts obj)))
         else [])"
    define E where "E = concat (map ent (zip [0..<length objs] objs))"
    have fe: "for_each average_collect (zip [0..<length objs] objs) = Inr (map ent (zip [0..<length objs] objs))"
    proof (rule for_each_map)
      fix x assume "x \<in> set (zip [0..<length objs] objs)"
      then obtain i where i: "i < length objs" "x = (i, objs ! i)"
        by (auto simp: zip_upt_nth)
      have "eligible (objs ! i) \<longrightarrow> relative_shape_layer (objs ! i) = Inr (r i)"
        using rel i(1) by simp
      then have "object_has_relative_shape_keys_and_active_shape_is_not_basis_like (objs ! i) \<and>
                   total_vert_sel (objs ! i) \<noteq> 0 \<longrightarrow> relative_shape_layer (objs ! i) = Inr (r i)"
        by (simp add: eligible_alt)
      from average_collect_entries [OF this, of i] show "average_collect x = Inr (ent x)"
        unfolding i(2) ent_def by (simp add: eligible_alt)
    qed
    have Eeq: "E = concat (map (\<lambda>i. ent (i, objs ! i)) [0..<length objs])"
      by (simp add: E_def zip_upt_nth comp_def)
    have entmem: "((i, j), rc, mv) \<in> set (ent (i', obj)) \<longleftrightarrow>
                    eligible obj \<and> i = i' \<and> j < length (verts obj) \<and> ?sel (verts obj ! j) \<and>
                    rc = shape (verts obj ! j) ! r i' \<and> mv = vsub (co (verts obj ! j)) (shape (verts obj ! j) ! r i')"
      for i j rc mv i' obj
    proof (cases "eligible obj")
      case True
      then have e: "ent (i', obj) = map (\<lambda>(j, bv). ((i', j), shape bv ! r i', vsub (co bv) (shape bv ! r i')))
                (filter (\<lambda>(j, bv). vert_select bv \<and> \<not> vert_hide bv) (zip [0..<length (verts obj)] (verts obj)))"
        by (simp add: ent_def)
      show ?thesis unfolding e entries_mem using True by auto
    next
      case False
      then show ?thesis by (simp add: ent_def)
    qed
    have Emem: "((i, j), rc, mv) \<in> set E \<longleftrightarrow>
                  i < length objs \<and> eligible (objs ! i) \<and> j < length (verts (objs ! i)) \<and>
                  ?sel (verts (objs ! i) ! j) \<and> rc = shape (verts (objs ! i) ! j) ! r i \<and>
                  mv = vsub (co (verts (objs ! i) ! j)) (shape (verts (objs ! i) ! j) ! r i)" for i j rc mv
    proof -
      have "((i, j), rc, mv) \<in> set E \<longleftrightarrow>
              (\<exists>i' < length objs. ((i, j), rc, mv) \<in> set (ent (i', objs ! i')))"
        unfolding Eeq by auto
      also have "\<dots> \<longleftrightarrow> (\<exists>i' < length objs. eligible (objs ! i') \<and> i = i' \<and> j < length (verts (objs ! i')) \<and>
                  ?sel (verts (objs ! i') ! j) \<and> rc = shape (verts (objs ! i') ! j) ! r i' \<and>
                  mv = vsub (co (verts (objs ! i') ! j)) (shape (verts (objs ! i') ! j) ! r i'))"
        using entmem by simp
      also have "\<dots> \<longleftrightarrow> i < length objs \<and> eligible (objs ! i) \<and> j < length (verts (objs ! i)) \<and>
                  ?sel (verts (objs ! i) ! j) \<and> rc = shape (verts (objs ! i) ! j) ! r i \<and>
                  mv = vsub (co (verts (objs ! i) ! j)) (shape (verts (objs ! i) ! j) ! r i)"
        by auto
      finally show ?thesis .
    qed
    have "map (\<lambda>(bv, rc, mv). mv) (ent (i, obj)) =
            (if eligible obj then map (\<lambda>bv. vsub (co bv) (shape bv ! r i)) (filter ?sel (verts obj)) else [])"
      for i obj
      using map_snd_filter_zip [of "\<lambda>bv. vsub (co bv) (shape bv ! r i)" ?sel "verts obj"]
      by (simp add: ent_def comp_def case_prod_unfold)
    then have Emoves: "map (\<lambda>(bv, rc, mv). mv) E = moves"
      unfolding Eeq moves_def by (simp add: map_concat comp_def)
    have len: "length E = length moves"
      using Emoves by (metis length_map)
    have comp: "map (\<lambda>(bv, relative_co, x, y, z). x) E = map (\<lambda>(x, y, z). x) moves"
               "map (\<lambda>(bv, relative_co, x, y, z). y) E = map (\<lambda>(x, y, z). y) moves"
               "map (\<lambda>(bv, relative_co, x, y, z). z) E = map (\<lambda>(x, y, z). z) moves"
      unfolding Emoves [symmetric] by (simp_all add: comp_def case_prod_unfold)
    have avg: "vdiv (fold (\<lambda>(_, _, movement) s. vadd s movement) E (0, 0, 0)) (real (length E)) = average"
      by (simp add: fold_vadd_sum comp len average_def)
    show ?thesis
    proof (cases "E = []")
      case True
      have ex: "average_execute mix ctxt = Inr (FINISHED, ctxt\<lparr>objects_in_mode_unique_data := objs\<rparr>)"
        using False fe True by (simp add: average_execute_def Let_def objs_def [symmetric] E_def [symmetric])
      have none: "\<not> (eligible (objs ! i) \<and> ?sel (verts (objs ! i) ! j))"
        if "i < length objs" "j < length (verts (objs ! i))" for i j
        using Emem [of i j "shape (verts (objs ! i) ! j) ! r i"
                       "vsub (co (verts (objs ! i) ! j)) (shape (verts (objs ! i) ! j) ! r i)"] that True
        by simp
      show ?thesis
        by (rule exI [of _ objs]) (use ex none in auto)
    next
      case nonempty: False
      define G where "G = (\<lambda>relative_co movement.
          vadd relative_co (if mix = 1 then average else lerp movement average mix))"
      define objs' where "objs' = fold (\<lambda>(bv, relative_co, movement) objs. set_co objs bv (G relative_co movement)) E objs"
      have f1: "(\<lambda>(bv, relative_co, _) objs. set_co objs bv (vadd relative_co average)) =
                (\<lambda>(bv, relative_co, movement) objs. set_co objs bv (G relative_co movement))" if "mix = 1"
        using that by (simp add: G_def)
      have f2: "(\<lambda>(bv, relative_co, movement) objs. set_co objs bv (vadd relative_co (lerp movement average mix))) =
                (\<lambda>(bv, relative_co, movement) objs. set_co objs bv (G relative_co movement))" if "mix \<noteq> 1"
        using that by (simp add: G_def)
      have ex: "average_execute mix ctxt = Inr (FINISHED, ctxt\<lparr>objects_in_mode_unique_data := objs'\<rparr>)"
        using False fe nonempty avg f1 f2
        by (simp add: average_execute_def Let_def objs_def [symmetric] E_def [symmetric] objs'_def)
      have vert: "verts (objs' ! i) ! j =
                     (verts (objs ! i) ! j)
                       \<lparr>co := (if mix \<noteq> 0 \<and> eligible (objs ! i) \<and> ?sel (verts (objs ! i) ! j)
                               then vadd (shape (verts (objs ! i) ! j) ! r i)
                                      (if mix = 1 then average
                                       else lerp (vsub (co (verts (objs ! i) ! j)) (shape (verts (objs ! i) ! j) ! r i))
                                              average mix)
                               else co (verts (objs ! i) ! j))\<rparr>"
        if ij: "i < length objs" "j < length (verts (objs ! i))" for i j
      proof -
        let ?v = "verts (objs ! i) ! j"
        have val: "G relative_co movement = G (shape ?v ! r i) (vsub (co ?v) (shape ?v ! r i))"
          if "((i, j), relative_co, movement) \<in> set E" for relative_co movement
          using that Emem [of i j relative_co movement] by simp
        have "fold (\<lambda>(bv, relative_co, movement) c. if bv = (i, j) then G relative_co movement else c) E (co ?v) =
                (if \<exists>relative_co movement. ((i, j), relative_co, movement) \<in> set E
                 then G (shape ?v ! r i) (vsub (co ?v) (shape ?v ! r i)) else co ?v)"
          by (rule fold_key_value) (rule val)
        moreover have "(\<exists>relative_co movement. ((i, j), relative_co, movement) \<in> set E) \<longleftrightarrow>
                         eligible (objs ! i) \<and> ?sel ?v"
          using Emem [of i j] ij by auto
        ultimately show ?thesis
          using fold_set_co_vert [OF ij, of G E] False
          by (simp add: objs'_def G_def)
      qed
      have frame: "length objs' = length objs"
        "\<And>i. i < length objs \<Longrightarrow> shape_keys (objs' ! i) = shape_keys (objs ! i) \<and>
                active_shape_key_index (objs' ! i) = active_shape_key_index (objs ! i) \<and>
                length (verts (objs' ! i)) = length (verts (objs ! i))"
      proof -
        show "length objs' = length objs"
        proof (cases objs)
          case Nil
          then have "E = []" by (simp add: E_def)
          then show ?thesis using nonempty by simp
        next
          case (Cons a list)
          then have "0 < length objs" by simp
          from fold_set_co_frame [OF this, of G E] show ?thesis by (simp add: objs'_def)
        qed
      next
        fix i assume "i < length objs"
        from fold_set_co_frame [OF this, of G E]
        show "shape_keys (objs' ! i) = shape_keys (objs ! i) \<and>
                active_shape_key_index (objs' ! i) = active_shape_key_index (objs ! i) \<and>
                length (verts (objs' ! i)) = length (verts (objs ! i))"
          by (simp add: objs'_def)
      qed
      show ?thesis
        by (rule exI [of _ objs']) (use ex frame vert in simp)
    qed
  qed
qed


theorem average_execute_movement_witness:
  "average_execute 1
     \<lparr>mesh_mode = ''EDIT_MESH'', objects_in_mode_unique_data =
      [\<lparr>shape_keys = Some \<lparr>use_relative = True, reference_key = ''Basis'',
                           key_blocks = [\<lparr>block_name = ''Basis'', relative_key = ''Basis''\<rparr>,
                                         \<lparr>block_name = ''Key 1'', relative_key = ''Key 2''\<rparr>,
                                         \<lparr>block_name = ''Key 2'', relative_key = ''Basis''\<rparr>]\<rparr>,
        active_shape_key_index = 1,
        verts = [\<lparr>co = (2, 1, 1), vert_select = True, vert_hide = False, shape = [(7, 7, 7), (0, 0, 0), (1, 1, 1)]\<rparr>,
                 \<lparr>co = (9, 9, 9), vert_select = False, vert_hide = False, shape = [(0, 0, 0), (0, 0, 0), (0, 0, 0)]\<rparr>,
                 \<lparr>co = (3, 0, 0), vert_select = True, vert_hide = True, shape = [(0, 0, 0), (0, 0, 0), (0, 0, 0)]\<rparr>]\<rparr>,
       \<lparr>shape_keys = None, active_shape_key_index = 0,
        verts = [\<lparr>co = (5, 5, 5), vert_select = True, vert_hide = False, shape = []\<rparr>]\<rparr>,
       \<lparr>shape_keys = Some \<lparr>use_relative = True, reference_key = ''Basis'',
                           key_blocks = [\<lparr>block_name = ''Basis'', relative_key = ''Basis''\<rparr>,
                                         \<lparr>block_name = ''Key 1'', relative_key = ''Basis''\<rparr>]\<rparr>,
        active_shape_key_index = 1,
        verts = [\<lparr>co = (4, 2, 0), vert_select = True, vert_hide = False, shape = [(1, 2, 0), (8, 8, 8)]\<rparr>]\<rparr>]\<rparr> =
   Inr (FINISHED,
     \<lparr>mesh_mode = ''EDIT_MESH'', objects_in_mode_unique_data =
      [\<lparr>shape_keys = Some \<lparr>use_relative = True, reference_key = ''Basis'',
                           key_blocks = [\<lparr>block_name = ''Basis'', relative_key = ''Basis''\<rparr>,
                                         \<lparr>block_name = ''Key 1'', relative_key = ''Key 2''\<rparr>,
                                         \<lparr>block_name = ''Key 2'', relative_key = ''Basis''\<rparr>]\<rparr>,
        active_shape_key_index = 1,
        verts = [\<lparr>co = (3, 1, 1), vert_select = True, vert_hide = False, shape = [(7, 7, 7), (0, 0, 0), (1, 1, 1)]\<rparr>,
                 \<lparr>co = (9, 9, 9), vert_select = False, vert_hide = False, shape = [(0, 0, 0), (0, 0, 0), (0, 0, 0)]\<rparr>,
                 \<lparr>co = (3, 0, 0), vert_select = True, vert_hide = True, shape = [(0, 0, 0), (0, 0, 0), (0, 0, 0)]\<rparr>]\<rparr>,
       \<lparr>shape_keys = None, active_shape_key_index = 0,
        verts = [\<lparr>co = (5, 5, 5), vert_select = True, vert_hide = False, shape = []\<rparr>]\<rparr>,
       \<lparr>shape_keys = Some \<lparr>use_relative = True, reference_key = ''Basis'',
                           key_blocks = [\<lparr>block_name = ''Basis'', relative_key = ''Basis''\<rparr>,
                                         \<lparr>block_name = ''Key 1'', relative_key = ''Basis''\<rparr>]\<rparr>,
        active_shape_key_index = 1,
        verts = [\<lparr>co = (3, 2, 0), vert_select = True, vert_hide = False, shape = [(1, 2, 0), (8, 8, 8)]\<rparr>]\<rparr>]\<rparr>) \<and>
   average_execute (1 / 2)
     \<lparr>mesh_mode = ''EDIT_MESH'', objects_in_mode_unique_data =
      [\<lparr>shape_keys = Some \<lparr>use_relative = True, reference_key = ''Basis'',
                           key_blocks = [\<lparr>block_name = ''Basis'', relative_key = ''Basis''\<rparr>,
                                         \<lparr>block_name = ''Key 1'', relative_key = ''Key 2''\<rparr>,
                                         \<lparr>block_name = ''Key 2'', relative_key = ''Basis''\<rparr>]\<rparr>,
        active_shape_key_index = 1,
        verts = [\<lparr>co = (2, 1, 1), vert_select = True, vert_hide = False, shape = [(7, 7, 7), (0, 0, 0), (1, 1, 1)]\<rparr>,
                 \<lparr>co = (9, 9, 9), vert_select = False, vert_hide = False, shape = [(0, 0, 0), (0, 0, 0), (0, 0, 0)]\<rparr>,
                 \<lparr>co = (3, 0, 0), vert_select = True, vert_hide = True, shape = [(0, 0, 0), (0, 0, 0), (0, 0, 0)]\<rparr>]\<rparr>,
       \<lparr>shape_keys = None, active_shape_key_index = 0,
        verts = [\<lparr>co = (5, 5, 5), vert_select = True, vert_hide = False, shape = []\<rparr>]\<rparr>,
       \<lparr>shape_keys = Some \<lparr>use_relative = True, reference_key = ''Basis'',
                           key_blocks = [\<lparr>block_name = ''Basis'', relative_key = ''Basis''\<rparr>,
                                         \<lparr>block_name = ''Key 1'', relative_key = ''Basis''\<rparr>]\<rparr>,
        active_shape_key_index = 1,
        verts = [\<lparr>co = (4, 2, 0), vert_select = True, vert_hide = False, shape = [(1, 2, 0), (8, 8, 8)]\<rparr>]\<rparr>]\<rparr> =
   Inr (FINISHED,
     \<lparr>mesh_mode = ''EDIT_MESH'', objects_in_mode_unique_data =
      [\<lparr>shape_keys = Some \<lparr>use_relative = True, reference_key = ''Basis'',
                           key_blocks = [\<lparr>block_name = ''Basis'', relative_key = ''Basis''\<rparr>,
                                         \<lparr>block_name = ''Key 1'', relative_key = ''Key 2''\<rparr>,
                                         \<lparr>block_name = ''Key 2'', relative_key = ''Basis''\<rparr>]\<rparr>,
        active_shape_key_index = 1,
        verts = [\<lparr>co = (5 / 2, 1, 1), vert_select = True, vert_hide = False, shape = [(7, 7, 7), (0, 0, 0), (1, 1, 1)]\<rparr>,
                 \<lparr>co = (9, 9, 9), vert_select = False, vert_hide = False, shape = [(0, 0, 0), (0, 0, 0), (0, 0, 0)]\<rparr>,
                 \<lparr>co = (3, 0, 0), vert_select = True, vert_hide = True, shape = [(0, 0, 0), (0, 0, 0), (0, 0, 0)]\<rparr>]\<rparr>,
       \<lparr>shape_keys = None, active_shape_key_index = 0,
        verts = [\<lparr>co = (5, 5, 5), vert_select = True, vert_hide = False, shape = []\<rparr>]\<rparr>,
       \<lparr>shape_keys = Some \<lparr>use_relative = True, reference_key = ''Basis'',
                           key_blocks = [\<lparr>block_name = ''Basis'', relative_key = ''Basis''\<rparr>,
                                         \<lparr>block_name = ''Key 1'', relative_key = ''Basis''\<rparr>]\<rparr>,
        active_shape_key_index = 1,
        verts = [\<lparr>co = (7 / 2, 2, 0), vert_select = True, vert_hide = False, shape = [(1, 2, 0), (8, 8, 8)]\<rparr>]\<rparr>]\<rparr>) \<and>
   average_execute 0
     \<lparr>mesh_mode = ''EDIT_MESH'', objects_in_mode_unique_data =
      [\<lparr>shape_keys = Some \<lparr>use_relative = True, reference_key = ''Basis'',
                           key_blocks = [\<lparr>block_name = ''Basis'', relative_key = ''Basis''\<rparr>,
                                         \<lparr>block_name = ''Key 1'', relative_key = ''Key 2''\<rparr>,
                                         \<lparr>block_name = ''Key 2'', relative_key = ''Basis''\<rparr>]\<rparr>,
        active_shape_key_index = 1,
        verts = [\<lparr>co = (2, 1, 1), vert_select = True, vert_hide = False, shape = [(7, 7, 7), (0, 0, 0), (1, 1, 1)]\<rparr>,
                 \<lparr>co = (9, 9, 9), vert_select = False, vert_hide = False, shape = [(0, 0, 0), (0, 0, 0), (0, 0, 0)]\<rparr>,
                 \<lparr>co = (3, 0, 0), vert_select = True, vert_hide = True, shape = [(0, 0, 0), (0, 0, 0), (0, 0, 0)]\<rparr>]\<rparr>,
       \<lparr>shape_keys = None, active_shape_key_index = 0,
        verts = [\<lparr>co = (5, 5, 5), vert_select = True, vert_hide = False, shape = []\<rparr>]\<rparr>,
       \<lparr>shape_keys = Some \<lparr>use_relative = True, reference_key = ''Basis'',
                           key_blocks = [\<lparr>block_name = ''Basis'', relative_key = ''Basis''\<rparr>,
                                         \<lparr>block_name = ''Key 1'', relative_key = ''Basis''\<rparr>]\<rparr>,
        active_shape_key_index = 1,
        verts = [\<lparr>co = (4, 2, 0), vert_select = True, vert_hide = False, shape = [(1, 2, 0), (8, 8, 8)]\<rparr>]\<rparr>]\<rparr> =
   Inr (FINISHED,
     \<lparr>mesh_mode = ''EDIT_MESH'', objects_in_mode_unique_data =
      [\<lparr>shape_keys = Some \<lparr>use_relative = True, reference_key = ''Basis'',
                           key_blocks = [\<lparr>block_name = ''Basis'', relative_key = ''Basis''\<rparr>,
                                         \<lparr>block_name = ''Key 1'', relative_key = ''Key 2''\<rparr>,
                                         \<lparr>block_name = ''Key 2'', relative_key = ''Basis''\<rparr>]\<rparr>,
        active_shape_key_index = 1,
        verts = [\<lparr>co = (2, 1, 1), vert_select = True, vert_hide = False, shape = [(7, 7, 7), (0, 0, 0), (1, 1, 1)]\<rparr>,
                 \<lparr>co = (9, 9, 9), vert_select = False, vert_hide = False, shape = [(0, 0, 0), (0, 0, 0), (0, 0, 0)]\<rparr>,
                 \<lparr>co = (3, 0, 0), vert_select = True, vert_hide = True, shape = [(0, 0, 0), (0, 0, 0), (0, 0, 0)]\<rparr>]\<rparr>,
       \<lparr>shape_keys = None, active_shape_key_index = 0,
        verts = [\<lparr>co = (5, 5, 5), vert_select = True, vert_hide = False, shape = []\<rparr>]\<rparr>,
       \<lparr>shape_keys = Some \<lparr>use_relative = True, reference_key = ''Basis'',
                           key_blocks = [\<lparr>block_name = ''Basis'', relative_key = ''Basis''\<rparr>,
                                         \<lparr>block_name = ''Key 1'', relative_key = ''Basis''\<rparr>]\<rparr>,
        active_shape_key_index = 1,
        verts = [\<lparr>co = (4, 2, 0), vert_select = True, vert_hide = False, shape = [(1, 2, 0), (8, 8, 8)]\<rparr>]\<rparr>]\<rparr>)"
  (is "average_execute 1 ?input = ?one \<and> average_execute (1 / 2) ?input = ?half \<and>
       average_execute 0 ?input = ?zero")
proof -
  have one: "average_execute 1 ?input = ?one"
    apply (rule exE [OF average_execute_movement
            [where ctxt = ?input and r = "\<lambda>i. if i = 0 then 2 else 0" and mix = 1]])
     apply (simp add: less_Suc_eq numeral_3_eq_3 numeral_2_eq_2)
    apply (simp add: average_execute_def average_collect_def active_shape_key_def total_vert_sel_def
        relative_shape_layer_def shape_layer_by_name_def shape_layer_names_def set_co_def upt_rec Let_def)
    done
  have half: "average_execute (1 / 2) ?input = ?half"
    apply (rule exE [OF average_execute_movement
            [where ctxt = ?input and r = "\<lambda>i. if i = 0 then 2 else 0" and mix = "1 / 2"]])
     apply (simp add: less_Suc_eq numeral_3_eq_3 numeral_2_eq_2)
    apply (simp add: average_execute_def average_collect_def active_shape_key_def total_vert_sel_def
        relative_shape_layer_def shape_layer_by_name_def shape_layer_names_def set_co_def upt_rec Let_def)
    done
  have zero: "average_execute 0 ?input = ?zero"
    apply (rule exE [OF average_execute_movement
            [where ctxt = ?input and r = "\<lambda>i. if i = 0 then 2 else 0" and mix = 0]])
     apply (simp add: less_Suc_eq numeral_3_eq_3 numeral_2_eq_2)
    apply (simp add: average_execute_def)
    done
  from one half zero show ?thesis by simp
qed

end
